theory Spec2Isabelle
  imports Main "HOL-Library.Word"
begin

section \<open>Strings: splitting, joining, decimal numerals\<close>

text \<open>
  Go strings are byte sequences; \<open>string\<close> (a list of 8-bit characters) models them
  byte for byte. \<open>Split s sep\<close> is \<^verbatim>\<open>strings.Split\<close> for a one-byte separator: the
  empty string splits into one empty piece, and \<open>n\<close> separators give \<open>n + 1\<close> pieces.
  \<open>Join\<close> is \<^verbatim>\<open>strings.Join\<close>.
\<close>

fun Split :: "string \<Rightarrow> char \<Rightarrow> string list" where
  "Split [] sep = [[]]"
| "Split (c # cs) sep =
     (if c = sep then [] # Split cs sep
      else (case Split cs sep of [] \<Rightarrow> [[c]] | w # ws \<Rightarrow> (c # w) # ws))"

fun Join :: "string list \<Rightarrow> string \<Rightarrow> string" where
  "Join [] sep = []"
| "Join [w] sep = w"
| "Join (w # v # ws) sep = w @ sep @ Join (v # ws) sep"

text \<open>
  \<open>Contains s sub\<close> is \<^verbatim>\<open>strings.Contains\<close>: \<open>sub\<close> occurs in \<open>s\<close> as a contiguous
  run of bytes.
\<close>

fun has_prefix :: "string \<Rightarrow> string \<Rightarrow> bool" where
  "has_prefix s [] = True"
| "has_prefix [] (p # ps) = False"
| "has_prefix (c # cs) (p # ps) = (c = p \<and> has_prefix cs ps)"

fun Contains :: "string \<Rightarrow> string \<Rightarrow> bool" where
  "Contains [] sub = (sub = [])"
| "Contains (c # cs) sub = (has_prefix (c # cs) sub \<or> Contains cs sub)"

text \<open>Decimal numerals, as \<^verbatim>\<open>strconv\<close> and \<^verbatim>\<open>fmt\<close> print and read them.\<close>

definition digit_char :: "nat \<Rightarrow> char" where
  "digit_char d = ''0123456789'' ! d"

definition is_digit :: "char \<Rightarrow> bool" where
  "is_digit c = (48 \<le> (of_char c :: nat) \<and> (of_char c :: nat) \<le> 57)"

definition digit_val :: "char \<Rightarrow> nat" where
  "digit_val c = (of_char c :: nat) - 48"

function Itoa :: "nat \<Rightarrow> string" where
  "Itoa n = (if n < 10 then [digit_char n] else Itoa (n div 10) @ [digit_char (n mod 10)])"
  by pat_completeness auto
termination
  by (relation "measure (\<lambda>n. n)") auto

fun digits_val :: "nat \<Rightarrow> string \<Rightarrow> nat" where
  "digits_val acc [] = acc"
| "digits_val acc (c # cs) = digits_val (10 * acc + digit_val c) cs"

text \<open>
  \<^verbatim>\<open>strconv.ParseUint(s, 10, 32)\<close> on a string of decimal digits: the value, or on
  overflow of 32 bits the largest 32-bit value together with a range error. ParseContract
  logs that error and keeps the value, so only the value is modelled.
\<close>

definition ParseUint32 :: "string \<Rightarrow> nat" where
  "ParseUint32 ds = (let n = digits_val 0 ds in if n < 2 ^ 32 then n else 2 ^ 32 - 1)"

section \<open>ParseContract\<close>

text \<open>
  The pattern is \<^verbatim>\<open>(?is)^@(\d+)(\w[_\w\d]*)$\<close>. In Go's regexp package \<^verbatim>\<open>\d\<close> is
  \<^verbatim>\<open>[0-9]\<close> and \<^verbatim>\<open>\w\<close> is \<^verbatim>\<open>[0-9A-Za-z_]\<close>; under the case-folding flag \<^verbatim>\<open>i\<close>
  the class \<^verbatim>\<open>\w\<close> also takes the two runes that fold to an ASCII letter, U+017F
  (bytes C5 BF) and U+212A (bytes E2 84 AA). So \<^verbatim>\<open>[_\w\d]\<close> is the same class as
  \<^verbatim>\<open>\w\<close>, and the second group is one or more runes of that class.
\<close>

definition is_word :: "char \<Rightarrow> bool" where
  "is_word c =
     (let n = (of_char c :: nat)
      in (48 \<le> n \<and> n \<le> 57) \<or> (65 \<le> n \<and> n \<le> 90) \<or> n = 95 \<or> (97 \<le> n \<and> n \<le> 122))"

fun word_runes :: "string \<Rightarrow> bool" where
  "word_runes [] = True"
| "word_runes (c # cs) =
     (if is_word c then word_runes cs
      else if (of_char c :: nat) = 197 then
        (case cs of d # r \<Rightarrow> (of_char d :: nat) = 191 \<and> word_runes r | [] \<Rightarrow> False)
      else if (of_char c :: nat) = 226 then
        (case cs of
           d # e # r \<Rightarrow> (of_char d :: nat) = 132 \<and> (of_char e :: nat) = 170 \<and> word_runes r
         | _ \<Rightarrow> False)
      else False)"

definition name_part :: "string \<Rightarrow> bool" where
  "name_part s = (s \<noteq> [] \<and> word_runes s)"

text \<open>
  The first group is greedy: the matcher tries the longest run of digits first and gives
  digits back one at a time until the rest of the input matches the second group.
  \<open>greedy_digits k s\<close> tries the splits of \<open>s\<close> after \<open>k\<close>, \<open>k - 1\<close>, ..., \<open>1\<close> bytes.
\<close>

fun greedy_digits :: "nat \<Rightarrow> string \<Rightarrow> (string \<times> string) option" where
  "greedy_digits 0 s = None"
| "greedy_digits (Suc k) s =
     (if name_part (drop (Suc k) s) then Some (take (Suc k) s, drop (Suc k) s)
      else greedy_digits k s)"

definition FindStringSubmatch :: "string \<Rightarrow> (string \<times> string) option" where
  "FindStringSubmatch inp =
     (case inp of
        [] \<Rightarrow> None
      | c # s \<Rightarrow>
          if c = CHR ''@'' then greedy_digits (length (takeWhile is_digit s)) s else None)"

definition ParseContract :: "string \<Rightarrow> nat \<times> string" where
  "ParseContract inp =
     (case FindStringSubmatch inp of
        None \<Rightarrow> (0, [])
      | Some (ds, nm) \<Rightarrow> (ParseUint32 ds, nm))"

section \<open>StateName\<close>

text \<open>
  Modelled from the spec: \<^verbatim>\<open>StateName\<close> is called by this file and defined elsewhere in
  the package. The spec: it is pure, and returns \<^verbatim>\<open>"@<state_id><name>"\<close> when
  \<^verbatim>\<open>state_id\<close> is not 0, else the name unchanged.
\<close>

definition StateName :: "32 word \<Rightarrow> string \<Rightarrow> string" where
  "StateName state name = (if state \<noteq> 0 then ''@'' @ Itoa (unat state) @ name else name)"

section \<open>The compiled object model\<close>

text \<open>
  \<^verbatim>\<open>interface{}\<close> values. \<open>VFunc\<close> is a host function value, tagged with what
  the type assertions of this file can tell apart: \<open>StackFn\<close> is a
  \<^verbatim>\<open>func(interface{}, string)\<close>, \<open>SigFn\<close> a
  \<^verbatim>\<open>func(*map[string]interface{}, string) error\<close>, \<open>OtherFn\<close> any other function;
  the number identifies the closure. \<open>VOpaque\<close> is any other non-nil value.
\<close>

datatype hostfn = StackFn nat | SigFn nat | OtherFn nat

datatype val =
    VNil
  | VStr string
  | VInt int
  | VBool bool
  | VUint32 "32 word"
  | VFunc hostfn
  | VSlice "val list"
  | VOpaque nat

text \<open>
  A Go map read \<^verbatim>\<open>m[k]\<close> gives nil for an absent key; \<^verbatim>\<open>_, ok := m[k]\<close> tells
  presence. A key can be present with the value nil.
\<close>

type_synonym vmap = "string \<Rightarrow> val option"

definition lookup :: "vmap \<Rightarrow> string \<Rightarrow> val" where
  "lookup m k = (case m k of None \<Rightarrow> VNil | Some v \<Rightarrow> v)"

text \<open>
  \<^verbatim>\<open>reflect.Type\<close>, as far as this file uses it: the zero value of a field's type,
  \<^verbatim>\<open>reflect.New(t).Elem().Interface()\<close>.
\<close>

datatype rtype = TString | TInt64 | TBool | TOther nat

fun zero_value :: "rtype \<Rightarrow> val" where
  "zero_value TString = VStr []"
| "zero_value TInt64 = VInt 0"
| "zero_value TBool = VBool False"
| "zero_value (TOther t) = VOpaque t"

datatype objtype = ObjUnknown | ObjContract | ObjFunc | ObjExtFunc | ObjVar | ObjExtend

definition CostCall :: "64 word" where "CostCall = 50"
definition CostContract :: "64 word" where "CostContract = 100"
definition CostExtend :: "64 word" where "CostExtend = 10"
definition CostDefault :: "64 word" where "CostDefault = 10000000"

record ExtFuncInfo =
  eName :: string
  eParams :: "rtype list"
  eResults :: "rtype list"
  eAuto :: "string list"
  eVariadic :: bool
  eFunc :: val

record FieldInfo =
  fName :: string
  fType :: rtype
  fTags :: string

text \<open>
  ContractInfo: \<open>cTx\<close> and \<open>cSettings\<close> are \<open>None\<close> for the nil pointer and the nil
  map. The fields Owner and Used are read by no function of this file and are left out,
  as are Vars, Code, Children and Owner of a Block.
\<close>

record ContractInfo =
  cID :: "32 word"
  cName :: string
  cTx :: "FieldInfo list option"
  cSettings :: "vmap option"

datatype info = NoInfo | ContractI ContractInfo | FuncI

datatype Block =
  Block (Objects: "string \<Rightarrow> ObjInfo option") (Type: objtype) (Info: info)
        (Parent: "Block option")
and ObjInfo = ObjInfo (oType: objtype) (oValue: objvalue)
and objvalue = BlockValue Block | ExtFuncValue ExtFuncInfo | NoValue

text \<open>
  VM embeds its root Block, whose Objects is the registry; its other fields are not
  read here.
\<close>

type_synonym VM = Block

section \<open>Errors, the run time, the collaborators\<close>

text \<open>
  The error kinds this file raises; the message texts (\<^verbatim>\<open>eUnknownContract\<close>,
  \<^verbatim>\<open>eUndefinedParam\<close>, \<^verbatim>\<open>eContractLoop\<close>, \<^verbatim>\<open>errContractPars\<close>) are
  declared elsewhere in the package, so a kind carries the name that the message is
  formatted with. \<open>External\<close> carries an error that comes back from code outside this
  file (the interpreter's Run, the signature hook); such an error is never taken for one
  that this file raised itself. \<open>Panic\<close> is a Go run-time panic (a failed type
  assertion, a nil dereference, an index out of range).
\<close>

datatype error =
    UnknownContract string
  | UnknownFunction string
  | BadContractParams
  | UndefinedParam string
  | ContractLoop string
  | External string
  | Panic

text \<open>
  The calls that ExecContract itself makes to host closures and to the interpreter, in
  order: \<open>StackCall f sc name\<close> is the stack hook \<open>f\<close> called with \<open>(sc, name)\<close>;
  \<open>RunCall m p\<close> is method \<open>m\<close> run with \<^verbatim>\<open>extend["parent"]\<close> equal to \<open>p\<close>.
\<close>

datatype call = StackCall nat val string | RunCall string val

text \<open>
  RunTime: \<open>blocks\<close> holds the Block of each active frame, the top of the stack last
  (the frame type is declared elsewhere; ExecContract reads nothing else of a frame).
  \<open>calls\<close> is a ghost field, the log of calls made so far; Go's RunTime has no such
  field. \<open>extend_vars\<close> is the map behind the pointer \<^verbatim>\<open>rt.extend\<close>.
\<close>

record RunTime =
  vm :: VM
  blocks :: "Block list"
  cost :: "64 word"
  extend_vars :: vmap
  calls :: "call list"

text \<open>
  Modelled from the spec: \<^verbatim>\<open>RunInit\<close> and \<^verbatim>\<open>Run\<close> are defined elsewhere in the
  package. RunInit seeds a RunTime with the given budget, an empty frame stack and a nil
  extend. Run executes a Block's bytecode against a RunTime with the given parameters and
  extend map; the interpreter is a parameter here, \<open>hRun\<close>: it returns the results, an
  optional error, and the RunTime after the run, whose \<open>cost\<close> is the remaining budget
  and whose \<open>extend_vars\<close> is the caller's map as the run left it.
  \<open>hSig f\<close> is the signature hook \<open>f\<close>, which gets the extend map and may change it;
  \<open>hReflect\<close> is a call through \<^verbatim>\<open>reflect.Value.Call\<close>, \<open>None\<close> when it panics;
  \<open>hText\<close> is \<^verbatim>\<open>fmt.Sprint\<close> on values whose text is not fixed by their content.
\<close>

record Host =
  hRun :: "RunTime \<Rightarrow> Block \<Rightarrow> val list \<Rightarrow> vmap \<Rightarrow> (val list \<times> string option) \<times> RunTime"
  hSig :: "nat \<Rightarrow> vmap \<Rightarrow> string \<Rightarrow> vmap \<times> string option"
  hReflect :: "val \<Rightarrow> val list \<Rightarrow> val list option"
  hText :: "val \<Rightarrow> string"

definition RunInit :: "VM \<Rightarrow> 64 word \<Rightarrow> RunTime" where
  "RunInit v c = \<lparr>vm = v, blocks = [], cost = c, extend_vars = Map.empty, calls = []\<rparr>"

definition Sprint :: "Host \<Rightarrow> val \<Rightarrow> string" where
  "Sprint h v =
     (case v of
        VStr s \<Rightarrow> s
      | VInt i \<Rightarrow> (if i < 0 then ''-'' @ Itoa (nat (- i)) else Itoa (nat i))
      | VBool b \<Rightarrow> (if b then ''true'' else ''false'')
      | VUint32 w \<Rightarrow> Itoa (unat w)
      | _ \<Rightarrow> hText h v)"

section \<open>ExecContract\<close>

text \<open>
  Lines 224 to 237, the loop over the declared tx fields. \<open>pars\<close> is the split tx
  list; \<^verbatim>\<open>parnames[tx.Name]\<close> is true exactly for the names in it. A field that is
  not supplied and not tagged optional ends the call; one that is not supplied and
  optional gets the zero value of its type in extend. The result is the error if any,
  the extend map as the loop left it, and \<^verbatim>\<open>isSignature\<close>.
\<close>

fun check_tx :: "FieldInfo list \<Rightarrow> string list \<Rightarrow> vmap \<Rightarrow> bool \<Rightarrow> error option \<times> vmap \<times> bool" where
  "check_tx [] pars ext isSignature = (None, ext, isSignature)"
| "check_tx (tx # txs) pars ext isSignature =
     (if fName tx \<notin> set pars then
        (if \<not> Contains (fTags tx) ''optional'' then
           (Some (UndefinedParam (fName tx)), ext, isSignature)
         else check_tx txs pars (ext(fName tx \<mapsto> zero_value (fType tx)))
                (isSignature \<or> fName tx = ''Signature''))
      else check_tx txs pars ext (isSignature \<or> fName tx = ''Signature''))"

text \<open>Lines 244 to 246: each supplied name is bound to its value, in order.\<close>

fun bind_params :: "string list \<Rightarrow> val list \<Rightarrow> vmap \<Rightarrow> vmap" where
  "bind_params (p # ps) (v # vs) ext = bind_params ps vs (ext(p \<mapsto> v))"
| "bind_params ps vs ext = ext"

text \<open>
  Lines 248 to 264. \<open>reduce_parent p name\<close> is what lines 253 to 261 make of the
  parent contract's name \<open>p\<close>; \<open>parent_walk\<close> goes through the frames from the top
  of the stack and stops at the first function block whose parent is a contract.
\<close>

definition reduce_parent :: "string \<Rightarrow> string \<Rightarrow> string" where
  "reduce_parent p name =
     (let (fid, fname) = ParseContract p;
          (cid, cname) = ParseContract name
      in if length fname > 0 then
           (if fid = 0 then ''@'' @ fname
            else if fid = cid then fname
            else p)
         else p)"

fun parent_walk :: "Block list \<Rightarrow> string \<Rightarrow> error + string" where
  "parent_walk [] name = Inr []"
| "parent_walk (b # bs) name =
     (case Parent b of
        None \<Rightarrow> parent_walk bs name
      | Some pb \<Rightarrow>
          if Type b = ObjFunc \<and> Type pb = ObjContract then
            (case Info pb of
               ContractI ci \<Rightarrow> Inr (reduce_parent (cName ci) name)
             | _ \<Rightarrow> Inl Panic)
          else parent_walk bs name)"

text \<open>
  Lines 266 to 270, the stack hook on entry: the closure that was called, if any.
\<close>

definition stack_enter :: "RunTime \<Rightarrow> string \<Rightarrow> error + (nat option \<times> RunTime)" where
  "stack_enter rt name =
     (case extend_vars rt ''stack_cont'' of
        None \<Rightarrow> Inr (None, rt)
      | Some stack \<Rightarrow>
          if lookup (extend_vars rt) ''sc'' \<noteq> VNil then
            (case stack of
               VFunc (StackFn f) \<Rightarrow>
                 Inr (Some f,
                      rt\<lparr>calls := calls rt @ [StackCall f (lookup (extend_vars rt) ''sc'') name]\<rparr>)
             | _ \<Rightarrow> Inl Panic)
          else Inr (None, rt))"

text \<open>Lines 271 to 278, the signature hook.\<close>

definition signature_hook :: "Host \<Rightarrow> RunTime \<Rightarrow> string \<Rightarrow> bool \<Rightarrow> error option \<times> RunTime" where
  "signature_hook h rt name isSignature =
     (if lookup (extend_vars rt) ''sc'' \<noteq> VNil \<and> isSignature then
        (case Objects (vm rt) ''check_signature'' of
           None \<Rightarrow> (Some Panic, rt)
         | Some obj \<Rightarrow>
             (case oValue obj of
                ExtFuncValue finfo \<Rightarrow>
                  (case eFunc finfo of
                     VFunc (SigFn f) \<Rightarrow>
                       (let (ext', err) = hSig h f (extend_vars rt) name;
                            rt' = rt\<lparr>extend_vars := ext'\<rparr>
                        in case err of
                             Some e \<Rightarrow> (Some (External e), rt')
                           | None \<Rightarrow> (None, rt'))
                   | _ \<Rightarrow> (Some Panic, rt))
              | _ \<Rightarrow> (Some Panic, rt)))
      else (None, rt))"

text \<open>
  Lines 279 to 290, the methods. Each one that the contract block has as a function
  runs in a fresh RunTime that gets the remaining cost; \<^verbatim>\<open>extend["parent"]\<close> is set
  before the run, the cost is taken back after it, and an error ends the call at once.
\<close>

fun run_methods :: "Host \<Rightarrow> Block \<Rightarrow> string \<Rightarrow> string list \<Rightarrow> RunTime \<Rightarrow> error option \<times> RunTime" where
  "run_methods h cblock parent [] rt = (None, rt)"
| "run_methods h cblock parent (method # ms) rt =
     (case Objects cblock method of
        None \<Rightarrow> run_methods h cblock parent ms rt
      | Some block \<Rightarrow>
          if oType block = ObjFunc then
            (let rtemp = RunInit (vm rt) (cost rt);
                 rt1 = rt\<lparr>extend_vars := (extend_vars rt)(''parent'' \<mapsto> VStr parent)\<rparr>
             in case oValue block of
                  BlockValue b \<Rightarrow>
                    (let (out, rtemp') = hRun h rtemp b [] (extend_vars rt1);
                         rt2 = rt1\<lparr>cost := cost rtemp', extend_vars := extend_vars rtemp',
                                  calls := calls rt1 @ [RunCall method (lookup (extend_vars rt1) ''parent'')]\<rparr>
                     in case snd out of
                          Some e \<Rightarrow> (Some (External e), rt2)
                        | None \<Rightarrow> run_methods h cblock parent ms rt2)
                | _ \<Rightarrow> (Some Panic, rt1))
          else run_methods h cblock parent ms rt)"

text \<open>Lines 291 to 298: the stack hook on exit, the parent put back, the result.\<close>

definition finish :: "Host \<Rightarrow> nat option \<Rightarrow> val \<Rightarrow> RunTime \<Rightarrow> (error + string) \<times> RunTime" where
  "finish h stackCont prevparent rt =
     (let rt1 = (case stackCont of
                   None \<Rightarrow> rt
                 | Some f \<Rightarrow> rt\<lparr>calls := calls rt @ [StackCall f (lookup (extend_vars rt) ''sc'') []]\<rparr>);
          rt2 = rt1\<lparr>extend_vars := (extend_vars rt1)(''parent'' \<mapsto> prevparent)\<rparr>
      in (Inr (if lookup (extend_vars rt2) ''result'' \<noteq> VNil
               then Sprint h (lookup (extend_vars rt2) ''result'') else []),
          rt2))"

text \<open>
  Lines 244 to 298, what runs between setting the loop key and the deferred delete.
\<close>

definition exec_guarded ::
  "Host \<Rightarrow> RunTime \<Rightarrow> string \<Rightarrow> Block \<Rightarrow> string list \<Rightarrow> val list \<Rightarrow> bool \<Rightarrow> (error + string) \<times> RunTime" where
  "exec_guarded h rt name cblock pars params isSignature =
     (let rt1 = rt\<lparr>extend_vars := bind_params pars params (extend_vars rt)\<rparr>;
          prevparent = lookup (extend_vars rt1) ''parent''
      in case parent_walk (rev (blocks rt1)) name of
           Inl e \<Rightarrow> (Inl e, rt1)
         | Inr parent \<Rightarrow>
             (let rt2 = rt1\<lparr>cost := cost rt1 - CostContract\<rparr>
              in case stack_enter rt2 name of
                   Inl e \<Rightarrow> (Inl e, rt2)
                 | Inr (stackCont, rt3) \<Rightarrow>
                     (case signature_hook h rt3 name isSignature of
                        (Some e, rt4) \<Rightarrow> (Inl e, rt4)
                      | (None, rt4) \<Rightarrow>
                          (case run_methods h cblock parent [''init'', ''conditions'', ''action''] rt4 of
                             (Some e, rt5) \<Rightarrow> (Inl e, rt5)
                           | (None, rt5) \<Rightarrow> finish h stackCont prevparent rt5))))"

text \<open>
  Lines 207 to 243, and the deferred delete of the loop key, which runs on every way out
  of the function once line 243 has been passed, a panic included.
\<close>

definition run_checks :: "ContractInfo \<Rightarrow> string list \<Rightarrow> vmap \<Rightarrow> error option \<times> vmap \<times> bool" where
  "run_checks ci pars ext =
     (case cTx ci of
        None \<Rightarrow> (None, ext, False)
      | Some txs \<Rightarrow> check_tx txs pars ext False)"

definition ExecContract ::
  "Host \<Rightarrow> RunTime \<Rightarrow> string \<Rightarrow> string \<Rightarrow> val list \<Rightarrow> (error + string) \<times> RunTime" where
  "ExecContract h rt name txs params =
     (case Objects (vm rt) name of
        None \<Rightarrow> (Inl (UnknownContract name), rt)
      | Some contract \<Rightarrow>
          (case oValue contract of
             BlockValue cblock \<Rightarrow>
               (let pars = Split txs (CHR '','')
                in if length pars \<noteq> length params then (Inl BadContractParams, rt)
                   else
                     (case Info cblock of
                        ContractI ci \<Rightarrow>
                          (case run_checks ci pars (extend_vars rt) of
                             (Some e, ext1, isSignature) \<Rightarrow> (Inl e, rt\<lparr>extend_vars := ext1\<rparr>)
                           | (None, ext1, isSignature) \<Rightarrow>
                               if ext1 (''loop_'' @ name) \<noteq> None then
                                 (Inl (ContractLoop name), rt\<lparr>extend_vars := ext1\<rparr>)
                               else
                                 (let rt1 = rt\<lparr>extend_vars := ext1(''loop_'' @ name \<mapsto> VBool True)\<rparr>;
                                      (r, rt2) = exec_guarded h rt1 name cblock pars params isSignature
                                  in (r, rt2\<lparr>extend_vars := (extend_vars rt2)(''loop_'' @ name := None)\<rparr>)))
                      | _ \<Rightarrow> (Inl Panic, rt)))
           | _ \<Rightarrow> (Inl Panic, rt)))"

section \<open>ExContract\<close>

text \<open>
  Lines 444 to 454. A nil \<^verbatim>\<open>params\<close> map reads like an empty one, which line 438
  puts in its place. An optional field that \<^verbatim>\<open>params\<close> lacks is passed on with the
  value nil.
\<close>

fun flatten_tx ::
  "FieldInfo list \<Rightarrow> vmap \<Rightarrow> string list \<Rightarrow> val list \<Rightarrow> error + (string list \<times> val list)" where
  "flatten_tx [] params names vals = Inr (names, vals)"
| "flatten_tx (tx # txs) params names vals =
     (if params (fName tx) = None \<and> \<not> Contains (fTags tx) ''optional'' then
        Inl (UndefinedParam (fName tx))
      else flatten_tx txs params (names @ [fName tx]) (vals @ [lookup params (fName tx)]))"

definition ExContract ::
  "Host \<Rightarrow> RunTime \<Rightarrow> 32 word \<Rightarrow> string \<Rightarrow> vmap \<Rightarrow> (error + string) \<times> RunTime" where
  "ExContract h rt state name0 params =
     (let name = StateName state name0
      in case Objects (vm rt) name of
           None \<Rightarrow> (Inl (UnknownContract name), rt)
         | Some contract \<Rightarrow>
             (case oValue contract of
                BlockValue cblock \<Rightarrow>
                  (case Info cblock of
                     ContractI ci \<Rightarrow>
                       (case (case cTx ci of
                                None \<Rightarrow> Inr ([], [])
                              | Some txs \<Rightarrow> flatten_tx txs params [] []) of
                          Inl e \<Rightarrow> (Inl e, rt)
                        | Inr (names, vals) \<Rightarrow>
                            ExecContract h rt name (Join names '','')
                              (if length vals = 0 then vals @ [VStr []] else vals))
                   | _ \<Rightarrow> (Inl Panic, rt))
              | _ \<Rightarrow> (Inl Panic, rt)))"

text \<open>
  ExContract as the specification words it: the qualified name is resolved; a field that
  is not optional and is absent from \<open>params\<close> fails the call before ExecContract is
  reached; otherwise ExecContract gets the declared names joined by commas and the
  values of \<open>params\<close> under them, or one empty string when there are no values.
\<close>

definition missing_field :: "vmap \<Rightarrow> FieldInfo \<Rightarrow> bool" where
  "missing_field params tx = (params (fName tx) = None \<and> \<not> Contains (fTags tx) ''optional'')"

definition declared_tx :: "ContractInfo \<Rightarrow> FieldInfo list" where
  "declared_tx ci = (case cTx ci of None \<Rightarrow> [] | Some txs \<Rightarrow> txs)"

definition ExContract_spec ::
  "Host \<Rightarrow> RunTime \<Rightarrow> 32 word \<Rightarrow> string \<Rightarrow> vmap \<Rightarrow> (error + string) \<times> RunTime" where
  "ExContract_spec h rt state name0 params =
     (case Objects (vm rt) (StateName state name0) of
        None \<Rightarrow> (Inl (UnknownContract (StateName state name0)), rt)
      | Some contract \<Rightarrow>
          (case oValue contract of
             BlockValue cblock \<Rightarrow>
               (case Info cblock of
                  ContractI ci \<Rightarrow>
                    (case find (missing_field params) (declared_tx ci) of
                       Some tx \<Rightarrow> (Inl (UndefinedParam (fName tx)), rt)
                     | None \<Rightarrow>
                         (let tx_spec = Join (map fName (declared_tx ci)) '','';
                              vals = map (\<lambda>tx. lookup params (fName tx)) (declared_tx ci)
                          in ExecContract h rt (StateName state name0) tx_spec
                               (if vals = [] then [VStr []] else vals)))
                | _ \<Rightarrow> (Inl Panic, rt))
           | _ \<Rightarrow> (Inl Panic, rt)))"

section \<open>GetSettings\<close>

definition GetSettings :: "RunTime \<Rightarrow> string \<Rightarrow> string \<Rightarrow> error + val" where
  "GetSettings rt cntname name =
     (case Objects (vm rt) cntname of
        None \<Rightarrow> Inl (UnknownContract cntname)
      | Some contract \<Rightarrow>
          (case oValue contract of
             BlockValue cblock \<Rightarrow>
               (case Info cblock of
                  ContractI ci \<Rightarrow>
                    (case cSettings ci of
                       Some settings \<Rightarrow>
                         (case settings name of
                            Some v \<Rightarrow> Inr v
                          | None \<Rightarrow> Inr (VStr []))
                     | None \<Rightarrow> Inr (VStr []))
                | _ \<Rightarrow> Inl Panic)
           | _ \<Rightarrow> Inl Panic))"

section \<open>Name resolution and Call\<close>

text \<open>
  getObjByName: the loop over the dotted segments. The result is \<open>Inr None\<close> for Go's
  nil, and a panic when a contract or function object does not hold a Block.
\<close>

fun getObjByName_segments :: "Block \<Rightarrow> string list \<Rightarrow> error + ObjInfo option" where
  "getObjByName_segments block [] = Inr None"
| "getObjByName_segments block (name # rest) =
     (case Objects block name of
        None \<Rightarrow> Inr None
      | Some ret \<Rightarrow>
          if rest = [] then Inr (Some ret)
          else if oType ret \<noteq> ObjContract \<and> oType ret \<noteq> ObjFunc then Inr None
          else (case oValue ret of
                  BlockValue b \<Rightarrow> getObjByName_segments b rest
                | _ \<Rightarrow> Inl Panic))"

definition getObjByName :: "VM \<Rightarrow> string \<Rightarrow> error + ObjInfo option" where
  "getObjByName v name = getObjByName_segments v (Split name (CHR ''.''))"

definition getObjByNameExt :: "VM \<Rightarrow> string \<Rightarrow> 32 word \<Rightarrow> error + ObjInfo option" where
  "getObjByNameExt v name state =
     (let sname = StateName state name
      in case getObjByName v name of
           Inr None \<Rightarrow> (if length sname > 0 then getObjByName v sname else Inr None)
         | r \<Rightarrow> r)"

text \<open>
  Lines 388 to 392 of Call: which lookup runs. The type assertion on
  \<^verbatim>\<open>extend["rt_state"]\<close> panics when the value is not a uint32.
\<close>

definition resolve_call :: "VM \<Rightarrow> string \<Rightarrow> vmap \<Rightarrow> error + ObjInfo option" where
  "resolve_call v name ext =
     (case ext ''rt_state'' of
        Some state \<Rightarrow>
          (case state of
             VUint32 s \<Rightarrow> getObjByNameExt v name s
           | _ \<Rightarrow> Inl Panic)
      | None \<Rightarrow> getObjByName v name)"

text \<open>
  Lines 405 to 417: the arguments handed to the reflective call. A variadic function gets
  the tail of \<open>params\<close> packed into a slice as its last argument; reading \<open>params\<close>
  past its end, or the last of no parameters at all, panics.
\<close>

definition marshal_params :: "ExtFuncInfo \<Rightarrow> val list \<Rightarrow> val list option" where
  "marshal_params finfo params =
     (let n = length (eParams finfo)
      in if eVariadic finfo then
           (if n = 0 \<or> length params < n - 1 then None
            else Some (take (n - 1) params @ [VSlice (drop (n - 1) params)]))
         else
           (if length params < n then None else Some (take n params)))"

text \<open>
  Call returns the results (the empty list for Go's nil), the error if any, the VM and
  the extend map as the call leaves them. The interpreter and the host functions are
  given no access to the VM.
\<close>

definition Call ::
  "Host \<Rightarrow> VM \<Rightarrow> string \<Rightarrow> val list \<Rightarrow> vmap \<Rightarrow> (val list \<times> error option) \<times> VM \<times> vmap" where
  "Call h v name params ext =
     (case resolve_call v name ext of
        Inl e \<Rightarrow> (([], Some e), v, ext)
      | Inr None \<Rightarrow> (([], Some (UnknownFunction name)), v, ext)
      | Inr (Some obj) \<Rightarrow>
          (case oType obj of
             ObjFunc \<Rightarrow>
               (case oValue obj of
                  BlockValue b \<Rightarrow>
                    (let rt = RunInit v CostDefault;
                         (out, rt') = hRun h rt b params ext
                     in ((fst out, map_option External (snd out)), v, extend_vars rt'))
                | _ \<Rightarrow> (([], Some Panic), v, ext))
           | ObjExtFunc \<Rightarrow>
               (case oValue obj of
                  ExtFuncValue finfo \<Rightarrow>
                    (case marshal_params finfo params of
                       None \<Rightarrow> (([], Some Panic), v, ext)
                     | Some pars \<Rightarrow>
                         (case hReflect h (eFunc finfo) pars of
                            None \<Rightarrow> (([], Some Panic), v, ext)
                          | Some result \<Rightarrow> ((result, None), v, ext)))
                | _ \<Rightarrow> (([], Some Panic), v, ext))
           | _ \<Rightarrow> (([], Some (UnknownFunction name)), v, ext)))"

section \<open>Notions used to state the properties\<close>

text \<open>
  \<open>contract_of v name\<close> is the ContractInfo of the registry entry \<open>name\<close> when
  that entry holds a Block that carries one. \<open>defaults_key ci pars k\<close> says that the
  tx loop of ExecContract stores a zero value under the key \<open>k\<close>: the schema has an
  optional field named \<open>k\<close> that the tx list \<open>pars\<close> does not supply.
  \<open>defaults_loop_key\<close> is that for the contract's own loop key. A method frame is a
  frame whose block is a function whose parent is a contract, the kind of frame the
  parent walk of ExecContract stops at.
\<close>

definition contract_of :: "VM \<Rightarrow> string \<Rightarrow> ContractInfo option" where
  "contract_of v name =
     (case Objects v name of
        None \<Rightarrow> None
      | Some contract \<Rightarrow>
          (case oValue contract of
             BlockValue cblock \<Rightarrow> (case Info cblock of ContractI ci \<Rightarrow> Some ci | _ \<Rightarrow> None)
           | _ \<Rightarrow> None))"

definition defaults_key :: "ContractInfo \<Rightarrow> string list \<Rightarrow> string \<Rightarrow> bool" where
  "defaults_key ci pars k =
     list_ex (\<lambda>tx. fName tx = k \<and> fName tx \<notin> set pars \<and> Contains (fTags tx) ''optional'')
       (declared_tx ci)"

definition defaults_loop_key :: "VM \<Rightarrow> string \<Rightarrow> string list \<Rightarrow> bool" where
  "defaults_loop_key v name pars =
     (case contract_of v name of
        None \<Rightarrow> False
      | Some ci \<Rightarrow> defaults_key ci pars (''loop_'' @ name))"

definition method_frame :: "Block \<Rightarrow> bool" where
  "method_frame b =
     (case Parent b of
        None \<Rightarrow> False
      | Some pb \<Rightarrow> Type b = ObjFunc \<and> Type pb = ObjContract)"

text \<open>
  \<open>runs_with p cs\<close>: every method run logged in \<open>cs\<close> was given
  \<^verbatim>\<open>extend["parent"]\<close> equal to \<open>p\<close>.
\<close>

definition runs_with :: "val \<Rightarrow> call list \<Rightarrow> bool" where
  "runs_with p cs = list_all (\<lambda>c. case c of RunCall m q \<Rightarrow> q = p | _ \<Rightarrow> True) cs"

section \<open>A small loaded VM\<close>

text \<open>
  The contract of the specification's scenarios: Greet declares one tx field, Who, and
  has the method action. Looper declares an optional field that carries the name of its
  own loop key. Main is a contract whose function is on the frame stack of
  \<open>nested_rt\<close>.
\<close>

definition Who_field :: FieldInfo where
  "Who_field = \<lparr>fName = ''Who'', fType = TString, fTags = []\<rparr>"

definition Greet_info :: ContractInfo where
  "Greet_info = \<lparr>cID = 1, cName = ''Greet'', cTx = Some [Who_field],
                  cSettings = Some [''limit'' \<mapsto> VInt 7]\<rparr>"

definition action_block :: Block where
  "action_block = Block Map.empty ObjFunc FuncI None"

definition Greet_block :: Block where
  "Greet_block =
     Block [''action'' \<mapsto> ObjInfo ObjFunc (BlockValue action_block)] ObjContract
       (ContractI Greet_info) None"

definition loop_field :: FieldInfo where
  "loop_field = \<lparr>fName = ''loop_Looper'', fType = TString, fTags = ''optional''\<rparr>"

definition Looper_info :: ContractInfo where
  "Looper_info = \<lparr>cID = 2, cName = ''Looper'', cTx = Some [loop_field], cSettings = None\<rparr>"

definition Looper_block :: Block where
  "Looper_block = Block Map.empty ObjContract (ContractI Looper_info) None"

definition Plain_info :: ContractInfo where
  "Plain_info = \<lparr>cID = 3, cName = ''Plain'', cTx = None, cSettings = None\<rparr>"

definition Plain_block :: Block where
  "Plain_block =
     Block [''action'' \<mapsto> ObjInfo ObjFunc (BlockValue action_block)] ObjContract
       (ContractI Plain_info) None"

definition echo_info :: ExtFuncInfo where
  "echo_info = \<lparr>eName = ''Echo'', eParams = [TString], eResults = [TString], eAuto = [[]],
                 eVariadic = False, eFunc = VFunc (OtherFn 1)\<rparr>"

definition demo_vm :: VM where
  "demo_vm =
     Block [''Greet'' \<mapsto> ObjInfo ObjContract (BlockValue Greet_block),
            ''@5Greet'' \<mapsto> ObjInfo ObjContract (BlockValue Greet_block),
            ''Looper'' \<mapsto> ObjInfo ObjContract (BlockValue Looper_block),
            ''Plain'' \<mapsto> ObjInfo ObjContract (BlockValue Plain_block),
            ''Echo'' \<mapsto> ObjInfo ObjExtFunc (ExtFuncValue echo_info)]
       ObjUnknown NoInfo None"

definition demo_rt :: RunTime where
  "demo_rt = \<lparr>vm = demo_vm, blocks = [], cost = 1000, extend_vars = Map.empty, calls = []\<rparr>"

definition Main_info :: ContractInfo where
  "Main_info = \<lparr>cID = 4, cName = ''Main'', cTx = None, cSettings = None\<rparr>"

definition Main_block :: Block where
  "Main_block = Block Map.empty ObjContract (ContractI Main_info) None"

definition Main_action :: Block where
  "Main_action = Block Map.empty ObjFunc FuncI (Some Main_block)"

definition nested_rt :: RunTime where
  "nested_rt = \<lparr>vm = demo_vm, blocks = [Main_action], cost = 1000, extend_vars = Map.empty,
                 calls = []\<rparr>"

text \<open>
  Two interpreters: one whose every run sets the result to a greeting and succeeds, one
  whose every run fails.
\<close>

definition greeting_host :: Host where
  "greeting_host =
     \<lparr>hRun = (\<lambda>rt b ps ext.
         (([], None),
          rt\<lparr>extend_vars :=
               ext(''result'' \<mapsto>
                 VStr (''Hi '' @ (case lookup ext ''Who'' of VStr s \<Rightarrow> s | _ \<Rightarrow> [])))\<rparr>)),
      hSig = (\<lambda>f ext name. (ext, None)),
      hReflect = (\<lambda>f ps. Some ps),
      hText = (\<lambda>v. [])\<rparr>"

definition failing_host :: Host where
  "failing_host =
     \<lparr>hRun = (\<lambda>rt b ps ext. (([], Some ''method failed''), rt\<lparr>extend_vars := ext\<rparr>)),
      hSig = (\<lambda>f ext name. (ext, None)),
      hReflect = (\<lambda>f ps. Some ps),
      hText = (\<lambda>v. [])\<rparr>"

lemmas demo_defs =
  demo_rt_def nested_rt_def demo_vm_def Greet_block_def Greet_info_def Who_field_def
  Looper_block_def Looper_info_def loop_field_def Plain_block_def Plain_info_def
  action_block_def Main_action_def Main_block_def Main_info_def echo_info_def
  greeting_host_def failing_host_def

lemmas exec_defs =
  ExecContract_def run_checks_def exec_guarded_def stack_enter_def signature_hook_def
  finish_def lookup_def RunInit_def Sprint_def CostContract_def

section \<open>Decimal numerals read back\<close>

declare Itoa.simps [simp del]

lemma nat_less_10_cases:
  "d < 10 \<Longrightarrow>
   d = 0 \<or> d = 1 \<or> d = 2 \<or> d = 3 \<or> d = 4 \<or> d = 5 \<or> d = 6 \<or> d = 7 \<or> d = 8 \<or> d = (9::nat)"
  by arith

lemma digit_val_digit_char: "d < 10 \<Longrightarrow> digit_val (digit_char d) = d"
  by (drule nat_less_10_cases) (auto simp: digit_val_def digit_char_def)

lemma is_digit_digit_char: "d < 10 \<Longrightarrow> is_digit (digit_char d)"
  by (drule nat_less_10_cases) (auto simp: is_digit_def digit_char_def)

lemma digits_val_snoc: "digits_val acc (ds @ [c]) = 10 * digits_val acc ds + digit_val c"
  by (induction ds arbitrary: acc) simp_all

lemma Itoa_not_Nil: "Itoa n \<noteq> []"
  by (subst Itoa.simps) simp

lemma Itoa_digits: "\<forall>c \<in> set (Itoa n). is_digit c"
proof (induction n rule: Itoa.induct)
  case (1 n)
  show ?case
  proof (cases "n < 10")
    case True
    then show ?thesis by (subst Itoa.simps) (simp add: is_digit_digit_char)
  next
    case False
    with 1 show ?thesis by (subst Itoa.simps) (simp add: is_digit_digit_char)
  qed
qed

lemma digits_val_Itoa: "digits_val 0 (Itoa n) = n"
proof (induction n rule: Itoa.induct)
  case (1 n)
  show ?case
  proof (cases "n < 10")
    case True
    then show ?thesis by (subst Itoa.simps) (simp add: digit_val_digit_char)
  next
    case False
    with 1 show ?thesis
      by (subst Itoa.simps) (simp add: digits_val_snoc digit_val_digit_char)
  qed
qed

lemma takeWhile_digits_append:
  assumes "\<forall>c \<in> set ds. is_digit c" and "nm \<noteq> []" and "\<not> is_digit (hd nm)"
  shows "takeWhile is_digit (ds @ nm) = ds"
proof -
  from assms(2,3) have "takeWhile is_digit nm = []"
    by (cases nm) simp_all
  with assms(1) show ?thesis by simp
qed

lemma greedy_digits_all:
  assumes "ds \<noteq> []" and "name_part nm"
  shows "greedy_digits (length ds) (ds @ nm) = Some (ds, nm)"
proof -
  from assms(1) obtain k where "length ds = Suc k" by (cases ds) auto
  with assms(2) show ?thesis by simp
qed

section \<open>C6: ParseContract reads back a qualified name\<close>

text \<open>
  C6, as stated: for every id > 0 in the parser's range and every non-empty name of word
  characters, ParseContract of "@", the decimal id and the name is (id, name). It fails
  for a name that begins with a digit: the greedy first group takes that digit too. With
  id 5 and name "7up" the input is "@57up", read as (57, "up").
\<close>

theorem ParseContract_digit_name_counterexample:
  "(0::nat) < 5 \<and> (5::nat) < 2 ^ 32 \<and> name_part ''7up'' \<and>
   ParseContract (''@'' @ Itoa 5 @ ''7up'') = (57, ''up'') \<and>
   ParseContract (''@'' @ Itoa 5 @ ''7up'') \<noteq> (5, ''7up'')"
  by (simp add: ParseContract_def FindStringSubmatch_def Itoa.simps digit_char_def is_digit_def
      name_part_def is_word_def ParseUint32_def digit_val_def)

text \<open>
  C6, amended: for every id > 0 below 2^32 and every non-empty name of word characters
  whose first character is not a digit, ParseContract of "@", the decimal id and the
  name is (id, name).
\<close>

theorem ParseContract_roundtrip:
  assumes "0 < n" and "n < 2 ^ 32" and "name_part nm" and "\<not> is_digit (hd nm)"
  shows "ParseContract (''@'' @ Itoa n @ nm) = (n, nm)"
proof -
  from assms(3) have ne: "nm \<noteq> []" by (simp add: name_part_def)
  have tw: "takeWhile is_digit (Itoa n @ nm) = Itoa n"
    using Itoa_digits ne assms(4) by (rule takeWhile_digits_append)
  have "FindStringSubmatch (''@'' @ Itoa n @ nm) = Some (Itoa n, nm)"
    by (simp add: FindStringSubmatch_def tw greedy_digits_all [OF Itoa_not_Nil assms(3)])
  with assms(2) show ?thesis
    by (simp add: ParseContract_def ParseUint32_def digits_val_Itoa)
qed

theorem ParseContract_roundtrip_witness:
  "(0::nat) < 5 \<and> (5::nat) < 2 ^ 32 \<and> name_part ''Greet'' \<and> \<not> is_digit (hd ''Greet'') \<and>
   ParseContract (''@'' @ Itoa 5 @ ''Greet'') = (5, ''Greet'')"
proof -
  have h1: "(0::nat) < 5" by simp
  have h2: "(5::nat) < 2 ^ 32" by simp
  have h3: "name_part ''Greet''" by (simp add: name_part_def is_word_def)
  have h4: "\<not> is_digit (hd ''Greet'')" by (simp add: is_digit_def)
  from ParseContract_roundtrip [OF h1 h2 h3 h4] h1 h2 h3 h4 show ?thesis by blast
qed

section \<open>What the phases of ExecContract can return\<close>

lemma check_tx_frame:
  "\<not> (\<exists>tx \<in> set txs. fName tx = k \<and> fName tx \<notin> set pars \<and> Contains (fTags tx) ''optional'')
   \<Longrightarrow> fst (snd (check_tx txs pars ext sg)) k = ext k"
  by (induction txs arbitrary: ext sg) auto

lemma check_tx_error:
  "fst (check_tx txs pars ext sg) = Some e \<Longrightarrow> \<exists>n. e = UndefinedParam n"
  by (induction txs arbitrary: ext sg) (auto split: if_splits)

lemma check_tx_passes:
  "(fst (check_tx txs pars ext sg) = None) =
   (\<forall>tx \<in> set txs. fName tx \<in> set pars \<or> Contains (fTags tx) ''optional'')"
  by (induction txs arbitrary: ext sg) auto

lemma parent_walk_error: "parent_walk bs name = Inl e \<Longrightarrow> e = Panic"
  by (induction bs) (auto split: option.splits if_splits info.splits)

lemma stack_enter_error: "stack_enter rt name = Inl e \<Longrightarrow> e = Panic"
  by (auto simp: stack_enter_def split: option.splits if_splits val.splits hostfn.splits)

lemma signature_hook_error:
  "signature_hook h rt name sg = (Some e, rt') \<Longrightarrow> e = Panic \<or> (\<exists>m. e = External m)"
  by (auto simp: signature_hook_def Let_def split: option.splits if_splits val.splits hostfn.splits objvalue.splits prod.splits)

lemma run_methods_error:
  "run_methods h cb parent ms rt = (Some e, rt') \<Longrightarrow> e = Panic \<or> (\<exists>m. e = External m)"
  by (induction ms arbitrary: rt)
     (auto simp: Let_def split: option.splits if_splits objvalue.splits prod.splits)

lemma exec_guarded_error:
  "exec_guarded h rt name cb pars params sg = (Inl e, rt') \<Longrightarrow> e = Panic \<or> (\<exists>m. e = External m)"
  unfolding exec_guarded_def Let_def
  by (auto simp: finish_def Let_def simp del: run_methods.simps split: sum.splits prod.splits option.splits
      dest: parent_walk_error stack_enter_error signature_hook_error run_methods_error)


section \<open>C1: the parameter checks\<close>

text \<open>
  C1, as stated: for a contract whose tx schema is non-empty and has no optional field,
  ExecContract succeeds if and only if every schema field name appears in the tx list
  exactly once and there are as many values as names. It fails both ways. The names are
  collected in a set, so a name given twice passes: Greet, called with the tx list
  "Who,Who" and two values, succeeds. And a call that meets the conditions can still
  fail after the checks: Greet, called with "Who" and one value, returns the error of
  its action when the action fails.
\<close>

theorem ExecContract_repeated_name_counterexample:
  "Objects (vm demo_rt) ''Greet'' = Some (ObjInfo ObjContract (BlockValue Greet_block)) \<and>
   Info Greet_block = ContractI Greet_info \<and>
   cTx Greet_info = Some [Who_field] \<and>
   \<not> Contains (fTags Who_field) ''optional'' \<and>
   Split ''Who,Who'' (CHR '','') = [fName Who_field, fName Who_field] \<and>
   ExecContract greeting_host demo_rt ''Greet'' ''Who,Who'' [VStr ''Ada'', VStr ''Bob'']
     = (Inr ''Hi Bob'',
        demo_rt\<lparr>cost := 900,
                extend_vars := [''Who'' \<mapsto> VStr ''Bob'', ''result'' \<mapsto> VStr ''Hi Bob'',
                                ''parent'' \<mapsto> VNil],
                calls := [RunCall ''action'' (VStr [])]\<rparr>) \<and>
   Split ''Who'' (CHR '','') = [fName Who_field] \<and>
   fst (ExecContract failing_host demo_rt ''Greet'' ''Who'' [VStr ''Ada''])
     = Inl (External ''method failed'')"
  by (simp add: exec_defs demo_defs)

text \<open>
  C1, amended: for a contract whose tx schema is non-empty and has no optional field,
  ExecContract passes its parameter checks, that is, it returns neither
  BadContractParams nor UndefinedParam, if and only if every schema field name appears
  in the tx list at least once and there are as many values as names; and a call that
  succeeds meets both conditions. (An error that comes back from a method or from the
  signature hook is an \<open>External\<close> one, whatever its text.)
\<close>

theorem ExecContract_params_checked:
  assumes "Objects (vm rt) name = Some contract" and "oValue contract = BlockValue cblock"
    and "Info cblock = ContractI ci" and "cTx ci = Some schema" and "schema \<noteq> []"
    and "\<forall>tx \<in> set schema. \<not> Contains (fTags tx) ''optional''"
  shows "((fst (ExecContract h rt name txs params) \<noteq> Inl BadContractParams \<and>
           (\<forall>n. fst (ExecContract h rt name txs params) \<noteq> Inl (UndefinedParam n)))
          = ((\<forall>tx \<in> set schema. fName tx \<in> set (Split txs (CHR '',''))) \<and>
             length params = length (Split txs (CHR '',''))))
       \<and> ((\<exists>s. fst (ExecContract h rt name txs params) = Inr s) \<longrightarrow>
            (\<forall>tx \<in> set schema. fName tx \<in> set (Split txs (CHR '',''))) \<and>
            length params = length (Split txs (CHR '','')))"
proof -
  let ?pars = "Split txs (CHR '','')"
  let ?r = "fst (ExecContract h rt name txs params)"
  let ?cover = "\<forall>tx \<in> set schema. fName tx \<in> set ?pars"
  have main: "(?r \<noteq> Inl BadContractParams \<and> (\<forall>n. ?r \<noteq> Inl (UndefinedParam n)))
              = (?cover \<and> length params = length ?pars)"
  proof (cases "length ?pars = length params")
    case False
    with assms have "?r = Inl BadContractParams"
      by (simp add: ExecContract_def)
    with False show ?thesis by auto
  next
    case len: True
    obtain eo ext1 sg where ck: "check_tx schema ?pars (extend_vars rt) False = (eo, ext1, sg)"
      by (cases "check_tx schema ?pars (extend_vars rt) False") auto
    have pass: "(eo = None) = ?cover"
      using check_tx_passes [of schema ?pars "extend_vars rt" False] ck assms(6) by auto
    show ?thesis
    proof (cases eo)
      case None
      have "?r \<noteq> Inl BadContractParams \<and> (\<forall>n. ?r \<noteq> Inl (UndefinedParam n))"
        using assms(1-4) len ck None
        by (auto simp: ExecContract_def run_checks_def Let_def split: prod.splits
            dest: exec_guarded_error)
      with pass None len show ?thesis by simp
    next
      case (Some e)
      then obtain n where "e = UndefinedParam n"
        using check_tx_error [of schema ?pars "extend_vars rt" False e] ck by auto
      with assms(1-4) len ck Some have "?r = Inl (UndefinedParam n)"
        by (simp add: ExecContract_def run_checks_def)
      with pass Some show ?thesis by auto
    qed
  qed
  then show ?thesis by auto
qed


theorem ExecContract_params_checked_witness:
  "Objects (vm demo_rt) ''Greet'' = Some (ObjInfo ObjContract (BlockValue Greet_block)) \<and>
   oValue (ObjInfo ObjContract (BlockValue Greet_block)) = BlockValue Greet_block \<and>
   Info Greet_block = ContractI Greet_info \<and>
   cTx Greet_info = Some [Who_field] \<and>
   [Who_field] \<noteq> [] \<and>
   \<not> Contains (fTags Who_field) ''optional'' \<and>
   fst (ExecContract greeting_host demo_rt ''Greet'' ''Who'' [VStr ''Ada'']) \<noteq> Inl BadContractParams \<and>
   fst (ExecContract greeting_host demo_rt ''Greet'' ''Who'' [VStr ''Ada'']) \<noteq> Inl (UndefinedParam ''Who'')"
proof -
  have h1: "Objects (vm demo_rt) ''Greet'' = Some (ObjInfo ObjContract (BlockValue Greet_block))"
    by (simp add: demo_defs)
  have h2: "oValue (ObjInfo ObjContract (BlockValue Greet_block)) = BlockValue Greet_block"
    by simp
  have h3: "Info Greet_block = ContractI Greet_info" by (simp add: Greet_block_def)
  have h4: "cTx Greet_info = Some [Who_field]" by (simp add: Greet_info_def)
  have h5: "[Who_field] \<noteq> []" by simp
  have h6': "\<not> Contains (fTags Who_field) ''optional''" by (simp add: Who_field_def)
  then have h6: "\<forall>tx \<in> set [Who_field]. \<not> Contains (fTags tx) ''optional''" by simp
  have rhs: "(\<forall>tx \<in> set [Who_field]. fName tx \<in> set (Split ''Who'' (CHR '',''))) \<and>
             length [VStr ''Ada''] = length (Split ''Who'' (CHR '',''))"
    by (simp add: Who_field_def)
  from ExecContract_params_checked [OF h1 h2 h3 h4 h5 h6, of greeting_host "''Who''" "[VStr ''Ada'']"] rhs
  have "fst (ExecContract greeting_host demo_rt ''Greet'' ''Who'' [VStr ''Ada'']) \<noteq> Inl BadContractParams \<and>
        (\<forall>n. fst (ExecContract greeting_host demo_rt ''Greet'' ''Who'' [VStr ''Ada'']) \<noteq> Inl (UndefinedParam n))"
    by blast
  with h1 h2 h3 h4 h5 h6' show ?thesis by blast
qed

section \<open>C9: GetSettings\<close>

text \<open>
  C9: GetSettings returns an error if and only if the contract name is absent from the
  root registry, and the error is then the unknown-contract one; for a name that
  resolves to a contract it returns, with no error, the empty string when the settings
  map is nil or lacks the key, and the value under the key otherwise.
\<close>

theorem GetSettings_result:
  "((\<exists>e. GetSettings rt cntname key = Inl e \<and> e \<noteq> Panic) = (Objects (vm rt) cntname = None)) \<and>
   ((GetSettings rt cntname key = Inl (UnknownContract cntname)) = (Objects (vm rt) cntname = None)) \<and>
   (\<forall>contract cblock ci.
      Objects (vm rt) cntname = Some contract \<and> oValue contract = BlockValue cblock \<and>
      Info cblock = ContractI ci \<longrightarrow>
      GetSettings rt cntname key =
        Inr (case cSettings ci of
               None \<Rightarrow> VStr []
             | Some settings \<Rightarrow> (case settings key of None \<Rightarrow> VStr [] | Some v \<Rightarrow> v)))"
  by (auto simp: GetSettings_def split: option.splits objvalue.splits info.splits)

theorem GetSettings_result_witness:
  "Objects (vm demo_rt) ''Greet'' = Some (ObjInfo ObjContract (BlockValue Greet_block)) \<and>
   Info Greet_block = ContractI Greet_info \<and>
   GetSettings demo_rt ''Greet'' ''limit'' = Inr (VInt 7) \<and>
   GetSettings demo_rt ''Greet'' ''other'' = Inr (VStr []) \<and>
   GetSettings demo_rt ''Plain'' ''limit'' = Inr (VStr []) \<and>
   GetSettings demo_rt ''Nobody'' ''limit'' = Inl (UnknownContract ''Nobody'')"
proof -
  have g1: "Objects (vm demo_rt) ''Greet'' = Some (ObjInfo ObjContract (BlockValue Greet_block))"
    by (simp add: demo_defs)
  have g3: "Info Greet_block = ContractI Greet_info" by (simp add: Greet_block_def)
  have p1: "Objects (vm demo_rt) ''Plain'' = Some (ObjInfo ObjContract (BlockValue Plain_block))"
    by (simp add: demo_defs)
  have p3: "Info Plain_block = ContractI Plain_info" by (simp add: Plain_block_def)
  have n1: "Objects (vm demo_rt) ''Nobody'' = None" by (simp add: demo_defs)
  from GetSettings_result [of demo_rt "''Greet''" "''limit''"] g1 g3
  have a: "GetSettings demo_rt ''Greet'' ''limit'' = Inr (VInt 7)"
    by (simp add: Greet_info_def)
  from GetSettings_result [of demo_rt "''Greet''" "''other''"] g1 g3
  have b: "GetSettings demo_rt ''Greet'' ''other'' = Inr (VStr [])"
    by (simp add: Greet_info_def)
  from GetSettings_result [of demo_rt "''Plain''" "''limit''"] p1 p3
  have c: "GetSettings demo_rt ''Plain'' ''limit'' = Inr (VStr [])"
    by (simp add: Plain_info_def)
  from GetSettings_result [of demo_rt "''Nobody''" "''limit''"] n1
  have d: "GetSettings demo_rt ''Nobody'' ''limit'' = Inl (UnknownContract ''Nobody'')"
    by blast
  from g1 g3 a b c d show ?thesis by blast
qed

section \<open>C8: ExContract is ExecContract on the flattened schema\<close>

lemma flatten_tx_find:
  "flatten_tx txs params names vals =
     (case find (missing_field params) txs of
        Some tx \<Rightarrow> Inl (UndefinedParam (fName tx))
      | None \<Rightarrow> Inr (names @ map fName txs, vals @ map (\<lambda>tx. lookup params (fName tx)) txs))"
  by (induction txs arbitrary: names vals) (auto simp: missing_field_def split: option.splits)

text \<open>
  C8: for every state, name and params map, ExContract does what the specification's
  wording of it does: it fails with UnknownContract when the qualified name does not
  resolve; it fails with UndefinedParam, the run time untouched and ExecContract not
  called, when a schema field that is not optional is absent from params; otherwise it
  is ExecContract on the qualified name, the declared names joined by commas in
  declaration order, and the values of params under those names, a single empty string
  standing in when there is no value.
\<close>

theorem ExContract_refines_spec:
  "ExContract h rt state name params = ExContract_spec h rt state name params"
  by (simp add: ExContract_def ExContract_spec_def declared_tx_def flatten_tx_find Let_def
      split: option.splits objvalue.splits info.splits)

theorem ExContract_refines_spec_witness:
  "ExContract greeting_host demo_rt 5 ''Greet'' [''Who'' \<mapsto> VStr ''Ada'']
     = ExecContract greeting_host demo_rt ''@5Greet'' ''Who'' [VStr ''Ada''] \<and>
   fst (ExContract greeting_host demo_rt 5 ''Greet'' [''Who'' \<mapsto> VStr ''Ada'']) = Inr ''Hi Ada'' \<and>
   ExContract greeting_host demo_rt 5 ''Greet'' Map.empty = (Inl (UndefinedParam ''Who''), demo_rt) \<and>
   ExContract greeting_host demo_rt 6 ''Greet'' Map.empty = (Inl (UnknownContract ''@6Greet''), demo_rt) \<and>
   ExContract greeting_host demo_rt 0 ''Plain'' Map.empty
     = ExecContract greeting_host demo_rt ''Plain'' [] [VStr []]"
proof -
  have sn5: "StateName 5 ''Greet'' = ''@5Greet''"
    by (simp add: StateName_def Itoa.simps digit_char_def)
  have sn6: "StateName 6 ''Greet'' = ''@6Greet''"
    by (simp add: StateName_def Itoa.simps digit_char_def)
  have sn0: "StateName 0 ''Plain'' = ''Plain''"
    by (simp add: StateName_def)
  have a: "ExContract greeting_host demo_rt 5 ''Greet'' [''Who'' \<mapsto> VStr ''Ada'']
     = ExecContract greeting_host demo_rt ''@5Greet'' ''Who'' [VStr ''Ada'']"
    unfolding ExContract_refines_spec [of greeting_host demo_rt 5 "''Greet''" "[''Who'' \<mapsto> VStr ''Ada'']"]
    by (simp add: ExContract_spec_def sn5 declared_tx_def missing_field_def lookup_def demo_defs)
  have b: "fst (ExecContract greeting_host demo_rt ''@5Greet'' ''Who'' [VStr ''Ada'']) = Inr ''Hi Ada''"
    by (simp add: exec_defs demo_defs)
  have c: "ExContract greeting_host demo_rt 5 ''Greet'' Map.empty = (Inl (UndefinedParam ''Who''), demo_rt)"
    unfolding ExContract_refines_spec [of greeting_host demo_rt 5 "''Greet''" Map.empty]
    by (simp add: ExContract_spec_def sn5 declared_tx_def missing_field_def lookup_def demo_defs)
  have d: "ExContract greeting_host demo_rt 6 ''Greet'' Map.empty = (Inl (UnknownContract ''@6Greet''), demo_rt)"
    unfolding ExContract_refines_spec [of greeting_host demo_rt 6 "''Greet''" Map.empty]
    by (simp add: ExContract_spec_def sn6 demo_defs)
  have e: "ExContract greeting_host demo_rt 0 ''Plain'' Map.empty
     = ExecContract greeting_host demo_rt ''Plain'' [] [VStr []]"
    unfolding ExContract_refines_spec [of greeting_host demo_rt 0 "''Plain''" Map.empty]
    by (simp add: ExContract_spec_def sn0 declared_tx_def demo_defs)
  from a b c d e show ?thesis by simp
qed

section \<open>C7: Call and unknown functions\<close>

lemma getObjByName_segments_error: "getObjByName_segments b names = Inl e \<Longrightarrow> e = Panic"
  by (induction names arbitrary: b)
     (auto split: option.splits if_splits objvalue.splits)

lemma getObjByName_error: "getObjByName v name = Inl e \<Longrightarrow> e = Panic"
  by (auto simp: getObjByName_def dest: getObjByName_segments_error)

lemma getObjByNameExt_error: "getObjByNameExt v name state = Inl e \<Longrightarrow> e = Panic"
  by (auto simp: getObjByNameExt_def Let_def split: sum.splits option.splits if_splits
      dest: getObjByName_error)

lemma resolve_call_error: "resolve_call v name ext = Inl e \<Longrightarrow> e = Panic"
  by (auto simp: resolve_call_def split: option.splits val.splits
      dest: getObjByName_error getObjByNameExt_error)

text \<open>
  C7: Call returns a nil result with the unknown-function error exactly when the lookup
  (getObjByNameExt when \<^verbatim>\<open>extend["rt_state"]\<close> is set, getObjByName otherwise)
  finds nothing, or finds an object that is neither a function nor an extended function;
  and the VM that Call leaves is the VM it was given. (An error that the interpreter
  returns from a function's run is an \<open>External\<close> one, whatever its text.)
\<close>

theorem Call_unknown_function:
  "((fst (Call h v name params ext) = ([], Some (UnknownFunction name))) =
      (resolve_call v name ext = Inr None \<or>
       (\<exists>obj. resolve_call v name ext = Inr (Some obj) \<and>
              oType obj \<noteq> ObjFunc \<and> oType obj \<noteq> ObjExtFunc))) \<and>
   fst (snd (Call h v name params ext)) = v"
  by (auto simp: Call_def Let_def
      split: sum.splits option.splits objtype.splits objvalue.splits prod.splits
      dest: resolve_call_error)

theorem Call_unknown_function_witness:
  "resolve_call demo_vm ''Unknown'' Map.empty = Inr None \<and>
   Call greeting_host demo_vm ''Unknown'' [] Map.empty
     = (([], Some (UnknownFunction ''Unknown'')), demo_vm, Map.empty) \<and>
   fst (Call greeting_host demo_vm ''Greet'' [] Map.empty) = ([], Some (UnknownFunction ''Greet'')) \<and>
   fst (Call greeting_host demo_vm ''Greet'' [] [''rt_state'' \<mapsto> VUint32 5]) = ([], Some (UnknownFunction ''Greet'')) \<and>
   fst (Call greeting_host demo_vm ''Echo'' [VStr ''x''] Map.empty) = ([VStr ''x''], None) \<and>
   fst (snd (Call greeting_host demo_vm ''Echo'' [VStr ''x''] Map.empty)) = demo_vm"
proof -
  have r: "resolve_call demo_vm ''Unknown'' Map.empty = Inr None"
    by (simp add: resolve_call_def getObjByName_def demo_defs)
  from Call_unknown_function [of greeting_host demo_vm "''Unknown''" "[]" Map.empty] r
  have a: "fst (Call greeting_host demo_vm ''Unknown'' [] Map.empty) = ([], Some (UnknownFunction ''Unknown''))"
    and a': "fst (snd (Call greeting_host demo_vm ''Unknown'' [] Map.empty)) = demo_vm"
    by blast+
  have a'': "snd (snd (Call greeting_host demo_vm ''Unknown'' [] Map.empty)) = Map.empty"
    by (simp add: Call_def r)
  have g: "resolve_call demo_vm ''Greet'' Map.empty = Inr (Some (ObjInfo ObjContract (BlockValue Greet_block)))"
    by (simp add: resolve_call_def getObjByName_def demo_defs)
  from Call_unknown_function [of greeting_host demo_vm "''Greet''" "[]" Map.empty] g
  have b: "fst (Call greeting_host demo_vm ''Greet'' [] Map.empty) = ([], Some (UnknownFunction ''Greet''))"
    by simp
  have g5: "resolve_call demo_vm ''Greet'' [''rt_state'' \<mapsto> VUint32 5] = Inr (Some (ObjInfo ObjContract (BlockValue Greet_block)))"
    by (simp add: resolve_call_def getObjByNameExt_def getObjByName_def demo_defs)
  from Call_unknown_function [of greeting_host demo_vm "''Greet''" "[]" "[''rt_state'' \<mapsto> VUint32 5]"] g5
  have c: "fst (Call greeting_host demo_vm ''Greet'' [] [''rt_state'' \<mapsto> VUint32 5]) = ([], Some (UnknownFunction ''Greet''))"
    by simp
  have d: "fst (Call greeting_host demo_vm ''Echo'' [VStr ''x''] Map.empty) = ([VStr ''x''], None)"
    by (simp add: Call_def resolve_call_def getObjByName_def marshal_params_def demo_defs)
  from Call_unknown_function [of greeting_host demo_vm "''Echo''" "[VStr ''x'']" Map.empty]
  have e: "fst (snd (Call greeting_host demo_vm ''Echo'' [VStr ''x''] Map.empty)) = demo_vm"
    by blast
  from r a a' a'' b c d e show ?thesis by (simp add: prod_eq_iff)
qed

section \<open>C3: the loop guard\<close>

lemma run_checks_frame:
  "\<not> defaults_key ci pars k \<Longrightarrow> run_checks ci pars ext = (eo, ext1, sg) \<Longrightarrow> ext1 k = ext k"
  using check_tx_frame [of "declared_tx ci" k pars ext False]
  by (auto simp: run_checks_def defaults_key_def declared_tx_def list_ex_iff split: option.splits)

lemma run_checks_error:
  "run_checks ci pars ext = (Some e, ext1, sg) \<Longrightarrow> \<exists>n. e = UndefinedParam n"
  using check_tx_error [of "declared_tx ci" pars ext False e]
  by (auto simp: run_checks_def declared_tx_def split: option.splits)

text \<open>
  C3, as stated: when the name resolves to a contract and the parameter checks pass,
  ExecContract returns ContractLoop if and only if the key "loop_" + name was in extend
  at entry; and on every way out that key is in extend at return if and only if it was
  there at entry. It fails for a contract that declares an optional tx field under the
  name of its own loop key: the tx loop stores that field's zero value under the key
  before the guard looks at it. Looper, called with nothing under "loop_Looper", returns
  ContractLoop and leaves the key set.
\<close>

theorem ExecContract_loop_key_field_counterexample:
  "contract_of (vm demo_rt) ''Looper'' = Some Looper_info \<and>
   extend_vars demo_rt (''loop_'' @ ''Looper'') = None \<and>
   fst (ExecContract greeting_host demo_rt ''Looper'' ''x'' [VNil]) = Inl (ContractLoop ''Looper'') \<and>
   extend_vars (snd (ExecContract greeting_host demo_rt ''Looper'' ''x'' [VNil])) (''loop_'' @ ''Looper'')
     = Some (VStr [])"
  by (simp add: exec_defs demo_defs contract_of_def)

text \<open>
  C3, amended: provided the contract declares no optional tx field, left out of the tx
  list, under the name "loop_" + name: when the name resolves to a contract and the
  parameter checks pass (neither BadContractParams nor UndefinedParam comes back),
  ExecContract returns ContractLoop if and only if the key "loop_" + name was in extend
  at entry; and on every way out, the errors included, that key is in extend at return
  if and only if it was there at entry.
\<close>

theorem ExecContract_loop_guard:
  assumes "\<not> defaults_loop_key (vm rt) name (Split txs (CHR '',''))"
  shows "(contract_of (vm rt) name \<noteq> None \<and>
          fst (ExecContract h rt name txs params) \<noteq> Inl BadContractParams \<and>
          (\<forall>n. fst (ExecContract h rt name txs params) \<noteq> Inl (UndefinedParam n))
          \<longrightarrow> (fst (ExecContract h rt name txs params) = Inl (ContractLoop name))
               = (extend_vars rt (''loop_'' @ name) \<noteq> None))
       \<and> ((extend_vars (snd (ExecContract h rt name txs params)) (''loop_'' @ name) \<noteq> None)
            = (extend_vars rt (''loop_'' @ name) \<noteq> None))"
proof (cases "contract_of (vm rt) name")
  case None
  then have "snd (ExecContract h rt name txs params) = rt"
    by (auto simp: ExecContract_def contract_of_def Let_def
        split: option.splits objvalue.splits info.splits)
  with None show ?thesis by simp
next
  case (Some ci)
  then obtain contract cblock where res: "Objects (vm rt) name = Some contract"
    "oValue contract = BlockValue cblock" "Info cblock = ContractI ci"
    by (auto simp: contract_of_def split: option.splits objvalue.splits info.splits)
  let ?pars = "Split txs (CHR '','')"
  let ?key = "''loop_'' @ name"
  from assms Some have nd: "\<not> defaults_key ci ?pars ?key"
    by (simp add: defaults_loop_key_def)
  show ?thesis
  proof (cases "length ?pars = length params")
    case False
    with res have "ExecContract h rt name txs params = (Inl BadContractParams, rt)"
      by (simp add: ExecContract_def)
    then show ?thesis by simp
  next
    case len: True
    obtain eo ext1 sg where ck: "run_checks ci ?pars (extend_vars rt) = (eo, ext1, sg)"
      by (cases "run_checks ci ?pars (extend_vars rt)") auto
    from run_checks_frame [OF nd ck] have same: "ext1 ?key = extend_vars rt ?key" .
    show ?thesis
    proof (cases eo)
      case (Some e)
      with ck obtain n where "e = UndefinedParam n" using run_checks_error by blast
      with res len ck Some same show ?thesis
        by (simp add: ExecContract_def)
    next
      case None
      show ?thesis
      proof (cases "ext1 ?key")
        case (Some v)
        with res len ck None same show ?thesis
          by (simp add: ExecContract_def)
      next
        case absent: None
        obtain r rt2 where g: "exec_guarded h (rt\<lparr>extend_vars := ext1(?key \<mapsto> VBool True)\<rparr>) name cblock ?pars params sg = (r, rt2)"
          by (cases "exec_guarded h (rt\<lparr>extend_vars := ext1(?key \<mapsto> VBool True)\<rparr>) name cblock ?pars params sg") auto
        with res len ck None absent
        have E: "ExecContract h rt name txs params = (r, rt2\<lparr>extend_vars := (extend_vars rt2)(?key := None)\<rparr>)"
          by (simp add: ExecContract_def)
        have "r \<noteq> Inl (ContractLoop name)"
        proof
          assume "r = Inl (ContractLoop name)"
          with g exec_guarded_error [of _ _ _ _ _ _ _ "ContractLoop name" rt2]
          show False by auto
        qed
        with E absent same show ?thesis by simp
      qed
    qed
  qed
qed

theorem ExecContract_loop_guard_witness:
  "\<not> defaults_loop_key (vm demo_rt) ''Greet'' (Split ''Who'' (CHR '','')) \<and>
   contract_of (vm demo_rt) ''Greet'' \<noteq> None \<and>
   fst (ExecContract greeting_host (demo_rt\<lparr>extend_vars := [''loop_Greet'' \<mapsto> VBool True]\<rparr>)
          ''Greet'' ''Who'' [VStr ''Ada'']) = Inl (ContractLoop ''Greet'') \<and>
   extend_vars (snd (ExecContract greeting_host (demo_rt\<lparr>extend_vars := [''loop_Greet'' \<mapsto> VBool True]\<rparr>)
          ''Greet'' ''Who'' [VStr ''Ada''])) (''loop_'' @ ''Greet'') \<noteq> None \<and>
   fst (ExecContract greeting_host demo_rt ''Greet'' ''Who'' [VStr ''Ada'']) = Inr ''Hi Ada'' \<and>
   extend_vars (snd (ExecContract greeting_host demo_rt ''Greet'' ''Who'' [VStr ''Ada''])) (''loop_'' @ ''Greet'')
     = None"
proof -
  let ?rt1 = "demo_rt\<lparr>extend_vars := [''loop_Greet'' \<mapsto> VBool True]\<rparr>"
  have vm1: "vm ?rt1 = vm demo_rt" by simp
  have nd: "\<not> defaults_loop_key (vm demo_rt) ''Greet'' (Split ''Who'' (CHR '',''))"
    by (simp add: defaults_loop_key_def contract_of_def defaults_key_def declared_tx_def demo_defs)
  then have nd1: "\<not> defaults_loop_key (vm ?rt1) ''Greet'' (Split ''Who'' (CHR '',''))"
    by simp
  have co: "contract_of (vm demo_rt) ''Greet'' \<noteq> None"
    by (simp add: contract_of_def demo_defs)
  have r1: "fst (ExecContract greeting_host ?rt1 ''Greet'' ''Who'' [VStr ''Ada'']) = Inl (ContractLoop ''Greet'')"
    by (simp add: exec_defs demo_defs)
  have r2: "fst (ExecContract greeting_host demo_rt ''Greet'' ''Who'' [VStr ''Ada'']) = Inr ''Hi Ada''"
    by (simp add: exec_defs demo_defs)
  have e1: "extend_vars ?rt1 (''loop_'' @ ''Greet'') \<noteq> None" by simp
  have e2: "extend_vars demo_rt (''loop_'' @ ''Greet'') = None" by (simp add: demo_rt_def)
  from ExecContract_loop_guard [OF nd1, of greeting_host "[VStr ''Ada'']"] e1
  have a: "extend_vars (snd (ExecContract greeting_host ?rt1 ''Greet'' ''Who'' [VStr ''Ada''])) (''loop_'' @ ''Greet'') \<noteq> None"
    by blast
  from ExecContract_loop_guard [OF nd, of greeting_host "[VStr ''Ada'']"] e2
  have b: "extend_vars (snd (ExecContract greeting_host demo_rt ''Greet'' ''Who'' [VStr ''Ada''])) (''loop_'' @ ''Greet'') = None"
    by blast
  from nd co r1 r2 a b show ?thesis by blast
qed

section \<open>C5: the parent handed to the methods\<close>

lemma reduce_parent_unqualified: "snd (ParseContract p) = [] \<Longrightarrow> reduce_parent p name = p"
  by (cases "ParseContract p"; cases "ParseContract name") (simp add: reduce_parent_def)

lemma parent_walk_skip:
  "\<forall>a \<in> set xs. \<not> method_frame a \<Longrightarrow> parent_walk (xs @ ys) name = parent_walk ys name"
  by (induction xs) (auto simp: method_frame_def split: option.splits)

lemma parent_walk_innermost:
  assumes "blocks rt = lower @ b # upper" and "\<forall>a \<in> set upper. \<not> method_frame a"
    and "Type b = ObjFunc" and "Parent b = Some pb" and "Type pb = ObjContract"
    and "Info pb = ContractI pci"
  shows "parent_walk (rev (blocks rt)) name = Inr (reduce_parent (cName pci) name)"
proof -
  have "parent_walk (rev upper @ b # rev lower) name = parent_walk (b # rev lower) name"
    using assms(2) by (intro parent_walk_skip) simp
  with assms show ?thesis by simp
qed

lemma runs_with_append: "runs_with p (xs @ ys) = (runs_with p xs \<and> runs_with p ys)"
  by (simp add: runs_with_def)

lemma run_methods_calls:
  "run_methods h cb parent ms rt = (eo, rt') \<Longrightarrow>
   \<exists>new. calls rt' = calls rt @ new \<and> runs_with (VStr parent) new"
proof (induction ms arbitrary: rt)
  case Nil
  then show ?case by (simp add: runs_with_def)
next
  case (Cons m ms)
  show ?case
  proof (cases "Objects cb m")
    case None
    with Cons show ?thesis by simp
  next
    case (Some blk)
    show ?thesis
    proof (cases "oType blk = ObjFunc")
      case False
      with Some Cons show ?thesis by simp
    next
      case True
      let ?rt1 = "rt\<lparr>extend_vars := (extend_vars rt)(''parent'' \<mapsto> VStr parent)\<rparr>"
      show ?thesis
      proof (cases "oValue blk")
        case (BlockValue b)
        obtain out rtemp' where run: "hRun h (RunInit (vm rt) (cost rt)) b [] (extend_vars ?rt1) = (out, rtemp')"
          by (cases "hRun h (RunInit (vm rt) (cost rt)) b [] (extend_vars ?rt1)") auto
        let ?rt2 = "?rt1\<lparr>cost := cost rtemp', extend_vars := extend_vars rtemp',
                       calls := calls ?rt1 @ [RunCall m (lookup (extend_vars ?rt1) ''parent'')]\<rparr>"
        have c2: "calls ?rt2 = calls rt @ [RunCall m (VStr parent)]"
          by (simp add: lookup_def)
        show ?thesis
        proof (cases "snd out")
          case None
          with Some True BlockValue run Cons.prems
          have "run_methods h cb parent ms ?rt2 = (eo, rt')"
            using run by (simp add: Let_def)
          from Cons.IH [OF this] obtain new where
            "calls rt' = calls ?rt2 @ new" "runs_with (VStr parent) new" by blast
          with c2 have "calls rt' = calls rt @ (RunCall m (VStr parent) # new) \<and>
                        runs_with (VStr parent) (RunCall m (VStr parent) # new)"
            by (simp add: runs_with_def)
          then show ?thesis by blast
        next
          case (Some e)
          with \<open>Objects cb m = Some blk\<close> True BlockValue run Cons.prems
          have "rt' = ?rt2" by (simp add: Let_def)
          with c2 have "calls rt' = calls rt @ [RunCall m (VStr parent)] \<and>
                        runs_with (VStr parent) [RunCall m (VStr parent)]"
            by (simp add: runs_with_def)
          then show ?thesis by blast
        qed
      next
        case (ExtFuncValue x)
        with Some True Cons.prems have "calls rt' = calls rt @ []" by (auto simp: Let_def)
        then show ?thesis by (auto simp: runs_with_def)
      next
        case NoValue
        with Some True Cons.prems have "calls rt' = calls rt @ []" by (auto simp: Let_def)
        then show ?thesis by (auto simp: runs_with_def)
      qed
    qed
  qed
qed

lemma stack_enter_calls:
  "stack_enter rt name = Inr (sc, rt') \<Longrightarrow>
   \<exists>new. calls rt' = calls rt @ new \<and> runs_with p new"
  by (auto simp: stack_enter_def runs_with_def
      split: option.splits if_splits val.splits hostfn.splits)

lemma stack_enter_extend:
  "stack_enter rt name = Inr (sc, rt') \<Longrightarrow> extend_vars rt' = extend_vars rt"
  by (auto simp: stack_enter_def split: option.splits if_splits val.splits hostfn.splits)

lemma signature_hook_calls:
  "signature_hook h rt name sg = (eo, rt') \<Longrightarrow> calls rt' = calls rt"
  by (auto simp: signature_hook_def Let_def
      split: option.splits if_splits val.splits hostfn.splits objvalue.splits prod.splits)

lemma finish_calls:
  "finish h sc prev rt = (r, rt') \<Longrightarrow> \<exists>new. calls rt' = calls rt @ new \<and> runs_with p new"
  by (cases sc) (auto simp: finish_def Let_def runs_with_def)

lemma exec_guarded_calls:
  assumes g: "exec_guarded h rt name cb pars params sg = (r, rt')"
    and pw: "parent_walk (rev (blocks rt)) name = Inr parent"
  shows "\<exists>new. calls rt' = calls rt @ new \<and> runs_with (VStr parent) new"
proof -
  let ?rt2 = "rt\<lparr>extend_vars := bind_params pars params (extend_vars rt),
                 cost := cost rt - CostContract\<rparr>"
  have nil: "runs_with (VStr parent) []" by (simp add: runs_with_def)
  show ?thesis
  proof (cases "stack_enter ?rt2 name")
    case (Inl e)
    with g pw have "rt' = ?rt2" by (simp add: exec_guarded_def)
    with nil show ?thesis by simp
  next
    case (Inr pr)
    obtain sc rt3 where pr: "pr = (sc, rt3)" by (cases pr)
    from stack_enter_calls [OF Inr [unfolded pr]] obtain n1 where
      c3: "calls rt3 = calls rt @ n1" and w1: "runs_with (VStr parent) n1" by auto
    obtain eo rt4 where sh: "signature_hook h rt3 name sg = (eo, rt4)"
      by (cases "signature_hook h rt3 name sg")
    from signature_hook_calls [OF sh] c3 have c4: "calls rt4 = calls rt @ n1" by simp
    show ?thesis
    proof (cases eo)
      case (Some e)
      with g pw Inr pr sh have "rt' = rt4" by (simp add: exec_guarded_def)
      with c4 w1 show ?thesis by simp
    next
      case None
      obtain mo rt5 where rm: "run_methods h cb parent [''init'', ''conditions'', ''action''] rt4 = (mo, rt5)"
        by (cases "run_methods h cb parent [''init'', ''conditions'', ''action''] rt4")
      from run_methods_calls [OF rm] obtain n2 where
        c5: "calls rt5 = calls rt4 @ n2" and w2: "runs_with (VStr parent) n2" by auto
      show ?thesis
      proof (cases mo)
        case (Some e)
        with g pw Inr pr sh None rm have "rt' = rt5"
          by (simp add: exec_guarded_def del: run_methods.simps)
        with c4 c5 w1 w2 have "calls rt' = calls rt @ (n1 @ n2) \<and> runs_with (VStr parent) (n1 @ n2)"
          by (simp add: runs_with_append)
        then show ?thesis by blast
      next
        case mnone: None
        with g pw Inr pr sh None rm
        have "finish h sc (lookup (bind_params pars params (extend_vars rt)) ''parent'') rt5 = (r, rt')"
          by (simp add: exec_guarded_def del: run_methods.simps)
        from finish_calls [OF this] obtain n3 where
          "calls rt' = calls rt5 @ n3" "runs_with (VStr parent) n3" by auto
        with c4 c5 w1 w2 have "calls rt' = calls rt @ (n1 @ n2 @ n3) \<and>
            runs_with (VStr parent) (n1 @ n2 @ n3)"
          by (simp add: runs_with_append)
        then show ?thesis by blast
      qed
    qed
  qed
qed

text \<open>
  C5, as stated: when the walk finds a method frame and ParseContract gives an empty
  bare name for the name of that frame's contract, the methods run with
  \<^verbatim>\<open>extend["parent"]\<close> equal to the empty string. It fails: lines 255 to 261 leave
  \<^verbatim>\<open>parent\<close> as line 252 set it, the contract's name. Called from a function of the
  contract Main, Greet's action runs with parent "Main".
\<close>

theorem ExecContract_parent_kept_counterexample:
  "blocks nested_rt = [] @ Main_action # [] \<and>
   method_frame Main_action \<and>
   Parent Main_action = Some Main_block \<and>
   Info Main_block = ContractI Main_info \<and>
   ParseContract (cName Main_info) = (0, []) \<and>
   calls (snd (ExecContract greeting_host nested_rt ''Greet'' ''Who'' [VStr ''Ada'']))
     = [RunCall ''action'' (VStr ''Main'')] \<and>
   VStr ''Main'' \<noteq> VStr []"
  by (simp add: exec_defs demo_defs method_frame_def reduce_parent_def ParseContract_def
      FindStringSubmatch_def)

text \<open>
  C5, amended: when the walk of the frame stack finds an innermost frame whose block is
  a function whose parent is a contract, and ParseContract of that contract's name
  gives an empty bare name, every method that ExecContract runs is given
  \<^verbatim>\<open>extend["parent"]\<close> equal to that contract's name, unchanged.
\<close>

theorem ExecContract_parent_unqualified:
  assumes "blocks rt = lower @ b # upper" and "\<forall>a \<in> set upper. \<not> method_frame a"
    and "Type b = ObjFunc" and "Parent b = Some pb" and "Type pb = ObjContract"
    and "Info pb = ContractI pci" and "snd (ParseContract (cName pci)) = []"
  shows "\<exists>new. calls (snd (ExecContract h rt name txs params)) = calls rt @ new \<and>
               runs_with (VStr (cName pci)) new"
proof -
  have pw: "parent_walk (rev (blocks rt0)) name = Inr (cName pci)"
    if "blocks rt0 = blocks rt" for rt0
  proof -
    from that assms(1) have "blocks rt0 = lower @ b # upper" by simp
    from parent_walk_innermost [OF this assms(2-6)] show ?thesis
      by (simp only: reduce_parent_unqualified [OF assms(7)])
  qed
  have nil: "runs_with (VStr (cName pci)) []" by (simp add: runs_with_def)
  let ?R = "ExecContract h rt name txs params"
  consider (early) "calls (snd ?R) = calls rt"
    | (guarded) rt1 cb sg r rt2 where "blocks rt1 = blocks rt" "calls rt1 = calls rt"
        "exec_guarded h rt1 name cb (Split txs (CHR '','')) params sg = (r, rt2)"
        "calls (snd ?R) = calls rt2"
  proof (cases "calls (snd ?R) = calls rt")
    case True
    then show ?thesis by (rule early)
  next
    case False
    then show ?thesis
      by (auto simp: ExecContract_def Let_def
          split: option.splits objvalue.splits info.splits prod.splits if_splits
          intro!: guarded [rotated 2])
  qed
  then show ?thesis
  proof cases
    case early
    with nil show ?thesis by simp
  next
    case guarded
    from exec_guarded_calls [OF guarded(3) pw [OF guarded(1)]] guarded(2,4)
    show ?thesis by simp
  qed
qed

theorem ExecContract_parent_unqualified_witness:
  "blocks nested_rt = [] @ Main_action # [] \<and>
   Type Main_action = ObjFunc \<and>
   Parent Main_action = Some Main_block \<and>
   Type Main_block = ObjContract \<and>
   Info Main_block = ContractI Main_info \<and>
   snd (ParseContract (cName Main_info)) = [] \<and>
   calls (snd (ExecContract greeting_host nested_rt ''Greet'' ''Who'' [VStr ''Ada''])) \<noteq> [] \<and>
   runs_with (VStr ''Main'')
     (calls (snd (ExecContract greeting_host nested_rt ''Greet'' ''Who'' [VStr ''Ada''])))"
proof -
  have h1: "blocks nested_rt = [] @ Main_action # []" by (simp add: nested_rt_def)
  have h2: "\<forall>a \<in> set []. \<not> method_frame a" by simp
  have h3: "Type Main_action = ObjFunc" by (simp add: Main_action_def)
  have h4: "Parent Main_action = Some Main_block" by (simp add: Main_action_def)
  have h5: "Type Main_block = ObjContract" by (simp add: Main_block_def)
  have h6: "Info Main_block = ContractI Main_info" by (simp add: Main_block_def)
  have h7: "snd (ParseContract (cName Main_info)) = []"
    by (simp add: Main_info_def ParseContract_def FindStringSubmatch_def)
  have ne: "calls (snd (ExecContract greeting_host nested_rt ''Greet'' ''Who'' [VStr ''Ada''])) \<noteq> []"
    by (simp add: exec_defs demo_defs reduce_parent_def ParseContract_def FindStringSubmatch_def)
  have c0: "calls nested_rt = []" by (simp add: nested_rt_def)
  have nm: "cName Main_info = ''Main''" by (simp add: Main_info_def)
  from ExecContract_parent_unqualified [OF h1 h2 h3 h4 h5 h6 h7, of greeting_host "''Greet''" "''Who''" "[VStr ''Ada'']"]
  have "runs_with (VStr ''Main'')
     (calls (snd (ExecContract greeting_host nested_rt ''Greet'' ''Who'' [VStr ''Ada''])))"
    unfolding c0 nm by auto
  with h1 h3 h4 h5 h6 h7 ne show ?thesis by blast
qed

section \<open>C10: the empty tx list\<close>

lemma signature_hook_result:
  "signature_hook h rt name sg = (eo, rt') \<Longrightarrow>
   rt' = rt \<or> (\<exists>f. extend_vars rt' = fst (hSig h f (extend_vars rt) name))"
  by (auto simp: signature_hook_def Let_def
      split: option.splits if_splits val.splits hostfn.splits objvalue.splits prod.splits)
     (metis fst_conv)+

lemma signature_hook_extend:
  "\<forall>f e n. fst (hSig h f e n) k = e k \<Longrightarrow> signature_hook h rt name sg = (eo, rt') \<Longrightarrow>
   extend_vars rt' k = extend_vars rt k"
  by (drule signature_hook_result) auto

lemma run_methods_extend:
  "\<forall>r b ps e. extend_vars (snd (hRun h r b ps e)) k = e k \<Longrightarrow> k \<noteq> ''parent'' \<Longrightarrow>
   run_methods h cb parent ms rt = (eo, rt') \<Longrightarrow> extend_vars rt' k = extend_vars rt k"
proof (induction ms arbitrary: rt)
  case Nil
  then show ?case by simp
next
  case (Cons m ms)
  show ?case
  proof (cases "Objects cb m")
    case None
    with Cons show ?thesis by simp
  next
    case (Some blk)
    show ?thesis
    proof (cases "oType blk = ObjFunc")
      case False
      with Some Cons show ?thesis by simp
    next
      case True
      let ?rt1 = "rt\<lparr>extend_vars := (extend_vars rt)(''parent'' \<mapsto> VStr parent)\<rparr>"
      show ?thesis
      proof (cases "oValue blk")
        case (BlockValue b)
        obtain out rtemp' where run: "hRun h (RunInit (vm rt) (cost rt)) b [] (extend_vars ?rt1) = (out, rtemp')"
          by (cases "hRun h (RunInit (vm rt) (cost rt)) b [] (extend_vars ?rt1)") auto
        let ?rt2 = "?rt1\<lparr>cost := cost rtemp', extend_vars := extend_vars rtemp',
                       calls := calls ?rt1 @ [RunCall m (lookup (extend_vars ?rt1) ''parent'')]\<rparr>"
        from Cons.prems(1) have "extend_vars (snd (hRun h (RunInit (vm rt) (cost rt)) b [] (extend_vars ?rt1))) k
            = extend_vars ?rt1 k" by blast
        with run Cons.prems(2) have e2: "extend_vars ?rt2 k = extend_vars rt k" by simp
        show ?thesis
        proof (cases "snd out")
          case None
          with Some True BlockValue run Cons.prems
          have "run_methods h cb parent ms ?rt2 = (eo, rt')" by (simp add: Let_def)
          from Cons.IH [OF Cons.prems(1,2) this] e2 show ?thesis by simp
        next
          case (Some e)
          with \<open>Objects cb m = Some blk\<close> True BlockValue run Cons.prems
          have "rt' = ?rt2" by (simp add: Let_def)
          with e2 show ?thesis by simp
        qed
      next
        case (ExtFuncValue x)
        with Some True Cons.prems show ?thesis by (auto simp: Let_def)
      next
        case NoValue
        with Some True Cons.prems show ?thesis by (auto simp: Let_def)
      qed
    qed
  qed
qed

lemma finish_extend:
  "k \<noteq> ''parent'' \<Longrightarrow> finish h sc prev rt = (r, rt') \<Longrightarrow> extend_vars rt' k = extend_vars rt k"
  by (cases sc) (auto simp: finish_def Let_def)

lemma exec_guarded_extend:
  assumes sigk: "\<forall>f e n. fst (hSig h f e n) k = e k"
    and runk: "\<forall>r b ps e. extend_vars (snd (hRun h r b ps e)) k = e k"
    and k: "k \<noteq> ''parent''"
    and g: "exec_guarded h rt name cb pars params sg = (r, rt')"
  shows "extend_vars rt' k = bind_params pars params (extend_vars rt) k"
proof -
  let ?rt1 = "rt\<lparr>extend_vars := bind_params pars params (extend_vars rt)\<rparr>"
  let ?rt2 = "?rt1\<lparr>cost := cost ?rt1 - CostContract\<rparr>"
  show ?thesis
  proof (cases "parent_walk (rev (blocks rt)) name")
    case (Inl e)
    with g show ?thesis by (auto simp: exec_guarded_def)
  next
    case (Inr parent)
    show ?thesis
    proof (cases "stack_enter ?rt2 name")
      case (Inl e)
      with g Inr show ?thesis by (auto simp: exec_guarded_def)
    next
      case pr: (Inr pr)
      obtain sc rt3 where pr': "pr = (sc, rt3)" by (cases pr)
      from stack_enter_extend [OF pr [unfolded pr']]
      have e3: "extend_vars rt3 k = bind_params pars params (extend_vars rt) k" by simp
      obtain eo rt4 where sh: "signature_hook h rt3 name sg = (eo, rt4)"
        by (cases "signature_hook h rt3 name sg")
      from signature_hook_extend [OF sigk sh] e3
      have e4: "extend_vars rt4 k = bind_params pars params (extend_vars rt) k" by simp
      show ?thesis
      proof (cases eo)
        case (Some e)
        with g Inr pr pr' sh have "rt' = rt4" by (simp add: exec_guarded_def)
        with e4 show ?thesis by simp
      next
        case None
        obtain mo rt5 where rm: "run_methods h cb parent [''init'', ''conditions'', ''action''] rt4 = (mo, rt5)"
          by (cases "run_methods h cb parent [''init'', ''conditions'', ''action''] rt4")
        from run_methods_extend [OF runk k rm] e4
        have e5: "extend_vars rt5 k = bind_params pars params (extend_vars rt) k" by simp
        show ?thesis
        proof (cases mo)
          case (Some e)
          with g Inr pr pr' sh None rm have "rt' = rt5"
            by (simp add: exec_guarded_def del: run_methods.simps)
          with e5 show ?thesis by simp
        next
          case mnone: None
          with g Inr pr pr' sh None rm
          have "finish h sc (lookup (bind_params pars params (extend_vars rt)) ''parent'') rt5 = (r, rt')"
            by (simp add: exec_guarded_def del: run_methods.simps)
          from finish_extend [OF k this] e5 show ?thesis by simp
        qed
      qed
    qed
  qed
qed

text \<open>
  C10: the empty tx list splits into one empty name. For a name that resolves to a
  block, ExecContract with the empty tx list fails with BadContractParams, the run time
  untouched, for every number of values other than one. With one value the length check
  passes; the binding loop stores that value under the empty key; and once the call has
  gone past its checks (it returns a result, or the error of a hook or a method) the
  value is under the empty key at return, provided the signature hook and the interpreter
  leave that key alone.
\<close>

theorem ExecContract_empty_tx_list:
  assumes res: "Objects (vm rt) name = Some contract" "oValue contract = BlockValue cblock"
    and sigk: "\<forall>f e n. fst (hSig h f e n) [] = e []"
    and runk: "\<forall>r b ps e. extend_vars (snd (hRun h r b ps e)) [] = e []"
  shows "Split [] (CHR '','') = [[]] \<and>
         (length params \<noteq> 1 \<longrightarrow> ExecContract h rt name [] params = (Inl BadContractParams, rt)) \<and>
         (\<forall>v. fst (ExecContract h rt name [] [v]) \<noteq> Inl BadContractParams \<and>
              (\<forall>ext. bind_params (Split [] (CHR '','')) [v] ext [] = Some v) \<and>
              ((\<exists>s. fst (ExecContract h rt name [] [v]) = Inr s) \<or>
               (\<exists>m. fst (ExecContract h rt name [] [v]) = Inl (External m))
               \<longrightarrow> extend_vars (snd (ExecContract h rt name [] [v])) [] = Some v))"
proof (intro conjI allI)
  show "Split [] (CHR '','') = [[]]" by simp
  show "length params \<noteq> 1 \<longrightarrow> ExecContract h rt name [] params = (Inl BadContractParams, rt)"
    using res by (auto simp: ExecContract_def)
next
  fix v
  let ?R = "ExecContract h rt name [] [v]"
  let ?key = "''loop_'' @ name"
  have main: "fst ?R \<noteq> Inl BadContractParams \<and>
      ((\<exists>s. fst ?R = Inr s) \<or> (\<exists>m. fst ?R = Inl (External m))
        \<longrightarrow> extend_vars (snd ?R) [] = Some v)"
  proof (cases "Info cblock")
    case (ContractI ci)
    obtain eo ext1 sg where ck: "run_checks ci [[]] (extend_vars rt) = (eo, ext1, sg)"
      by (cases "run_checks ci [[]] (extend_vars rt)") auto
    show ?thesis
    proof (cases eo)
      case (Some e)
      with ck obtain n where "e = UndefinedParam n" using run_checks_error by blast
      with res ContractI ck Some show ?thesis by (simp add: ExecContract_def)
    next
      case None
      show ?thesis
      proof (cases "ext1 ?key")
        case (Some w)
        with res ContractI ck None show ?thesis by (simp add: ExecContract_def)
      next
        case absent: None
        obtain r rt2 where g: "exec_guarded h (rt\<lparr>extend_vars := ext1(?key \<mapsto> VBool True)\<rparr>) name cblock [[]] [v] sg = (r, rt2)"
          by (cases "exec_guarded h (rt\<lparr>extend_vars := ext1(?key \<mapsto> VBool True)\<rparr>) name cblock [[]] [v] sg") auto
        with res ContractI ck None absent
        have E: "?R = (r, rt2\<lparr>extend_vars := (extend_vars rt2)(?key := None)\<rparr>)"
          by (simp add: ExecContract_def)
        have nb: "r \<noteq> Inl BadContractParams"
        proof
          assume "r = Inl BadContractParams"
          with g exec_guarded_error [of _ _ _ _ _ _ _ BadContractParams rt2]
          show False by auto
        qed
        have "[] \<noteq> ''parent''" by simp
        from exec_guarded_extend [OF sigk runk this g]
        have "extend_vars rt2 [] = Some v" by simp
        with E nb show ?thesis by simp
      qed
    qed
  qed (use res in \<open>simp_all add: ExecContract_def\<close>)
  from main show "fst ?R \<noteq> Inl BadContractParams" by blast
  show "bind_params (Split [] (CHR '','')) [v] ext [] = Some v" for ext by simp
  from main show "(\<exists>s. fst ?R = Inr s) \<or> (\<exists>m. fst ?R = Inl (External m))
        \<longrightarrow> extend_vars (snd ?R) [] = Some v" by blast
qed

theorem ExecContract_empty_tx_list_witness:
  "Objects (vm demo_rt) ''Plain'' = Some (ObjInfo ObjContract (BlockValue Plain_block)) \<and>
   (\<forall>f e n. fst (hSig greeting_host f e n) [] = e []) \<and>
   (\<forall>r b ps e. extend_vars (snd (hRun greeting_host r b ps e)) [] = e []) \<and>
   ExecContract greeting_host demo_rt ''Plain'' [] [] = (Inl BadContractParams, demo_rt) \<and>
   ExecContract greeting_host demo_rt ''Plain'' [] [VStr ''a'', VStr ''b'']
     = (Inl BadContractParams, demo_rt) \<and>
   fst (ExecContract greeting_host demo_rt ''Plain'' [] [VStr ''x'']) = Inr ''Hi '' \<and>
   extend_vars (snd (ExecContract greeting_host demo_rt ''Plain'' [] [VStr ''x''])) []
     = Some (VStr ''x'')"
proof -
  have h1: "Objects (vm demo_rt) ''Plain'' = Some (ObjInfo ObjContract (BlockValue Plain_block))"
    by (simp add: demo_defs)
  have h2: "oValue (ObjInfo ObjContract (BlockValue Plain_block)) = BlockValue Plain_block"
    by simp
  have h3: "\<forall>f e n. fst (hSig greeting_host f e n) [] = e []"
    by (simp add: greeting_host_def)
  have h4: "\<forall>r b ps e. extend_vars (snd (hRun greeting_host r b ps e)) [] = e []"
    by (simp add: greeting_host_def)
  note T = ExecContract_empty_tx_list [OF h1 h2 h3 h4]
  have ok: "fst (ExecContract greeting_host demo_rt ''Plain'' [] [VStr ''x'']) = Inr ''Hi ''"
    by (simp add: exec_defs demo_defs)
  from T [of "[]"] have a: "ExecContract greeting_host demo_rt ''Plain'' [] [] = (Inl BadContractParams, demo_rt)"
    by simp
  from T [of "[VStr ''a'', VStr ''b'']"]
  have b: "ExecContract greeting_host demo_rt ''Plain'' [] [VStr ''a'', VStr ''b''] = (Inl BadContractParams, demo_rt)"
    by simp
  from T [of "[]"] ok
  have c: "extend_vars (snd (ExecContract greeting_host demo_rt ''Plain'' [] [VStr ''x''])) [] = Some (VStr ''x'')"
    by blast
  from h1 h3 h4 a b ok c show ?thesis by blast
qed

section \<open>C2 and C4: what an early return leaves undone\<close>

text \<open>
  C2 says that \<^verbatim>\<open>extend["parent"]\<close> at return equals its value at entry on every
  way out. Lines 276 and 287 return without reaching line 294, which puts the saved
  value back. With "Outer" under parent at entry and an action that fails, the call
  returns the method's error and leaves the empty string under parent; the same call
  with an action that succeeds leaves "Outer".
\<close>

theorem ExecContract_parent_after_method_error:
  "lookup (extend_vars (demo_rt\<lparr>extend_vars := [''parent'' \<mapsto> VStr ''Outer'']\<rparr>)) ''parent''
     = VStr ''Outer'' \<and>
   fst (ExecContract failing_host (demo_rt\<lparr>extend_vars := [''parent'' \<mapsto> VStr ''Outer'']\<rparr>)
          ''Greet'' ''Who'' [VStr ''Ada'']) = Inl (External ''method failed'') \<and>
   lookup (extend_vars (snd (ExecContract failing_host
          (demo_rt\<lparr>extend_vars := [''parent'' \<mapsto> VStr ''Outer'']\<rparr>)
          ''Greet'' ''Who'' [VStr ''Ada''])))
      ''parent'' = VStr [] \<and>
   fst (ExecContract greeting_host (demo_rt\<lparr>extend_vars := [''parent'' \<mapsto> VStr ''Outer'']\<rparr>)
          ''Greet'' ''Who'' [VStr ''Ada'']) = Inr ''Hi Ada'' \<and>
   lookup (extend_vars (snd (ExecContract greeting_host
          (demo_rt\<lparr>extend_vars := [''parent'' \<mapsto> VStr ''Outer'']\<rparr>)
          ''Greet'' ''Who'' [VStr ''Ada''])))
      ''parent'' = VStr ''Outer''"
  by (simp add: exec_defs demo_defs)

text \<open>
  C4 says that whenever the stack hook is called on entry it is called again, with the
  empty name, before ExecContract returns. The same early returns skip lines 291 to 293.
  With a stack hook and a signed context in extend and an action that fails, the hook is
  called with "Greet" and never with the empty name; when the action succeeds both
  calls are made.
\<close>

theorem ExecContract_stack_hook_after_method_error:
  "fst (ExecContract failing_host
          (demo_rt\<lparr>extend_vars := [''stack_cont'' \<mapsto> VFunc (StackFn 7), ''sc'' \<mapsto> VOpaque 1]\<rparr>)
          ''Greet'' ''Who'' [VStr ''Ada'']) = Inl (External ''method failed'') \<and>
   calls (snd (ExecContract failing_host
          (demo_rt\<lparr>extend_vars := [''stack_cont'' \<mapsto> VFunc (StackFn 7), ''sc'' \<mapsto> VOpaque 1]\<rparr>)
          ''Greet'' ''Who'' [VStr ''Ada'']))
     = [StackCall 7 (VOpaque 1) ''Greet'', RunCall ''action'' (VStr [])] \<and>
   fst (ExecContract greeting_host
          (demo_rt\<lparr>extend_vars := [''stack_cont'' \<mapsto> VFunc (StackFn 7), ''sc'' \<mapsto> VOpaque 1]\<rparr>)
          ''Greet'' ''Who'' [VStr ''Ada'']) = Inr ''Hi Ada'' \<and>
   calls (snd (ExecContract greeting_host
          (demo_rt\<lparr>extend_vars := [''stack_cont'' \<mapsto> VFunc (StackFn 7), ''sc'' \<mapsto> VOpaque 1]\<rparr>)
          ''Greet'' ''Who'' [VStr ''Ada'']))
     = [StackCall 7 (VOpaque 1) ''Greet'', RunCall ''action'' (VStr []),
        StackCall 7 (VOpaque 1) []]"
  by (simp add: exec_defs demo_defs)

end
